theory Spec2Isabelle
  imports Complex_Main "HOL-Library.AList" "HOL-Library.Sublist"
begin

section \<open>Data model (types.ts)\<close>

text \<open>
  JavaScript strings are modelled as \<open>string\<close>; a \<open>char\<close> stands for one code unit.
  The module compares code units with ASCII characters only.

  Numbers are IEEE doubles: a finite double is the rational it denotes (\<open>Finite 0\<close> is
  \<open>+0\<close>), the four special values are constructors of their own. The module never
  computes with the numbers of a response body, it only tests their truthiness.
\<close>

datatype number = Finite rat | NegZero | Infinity | NegInfinity | NaN

text \<open>A value produced by \<open>res.json()\<close>. An object lists its own properties.\<close>

datatype json =
    JNull
  | JBool bool
  | JNum number
  | JStr string
  | JArr "json list"
  | JObj "(string \<times> json) list"

datatype Platform = youtube | peertube | vimeo

text \<open>
  \<open>ThumbnailResult\<close>. The interface declares \<open>url: string\<close> and \<open>width, height: number\<close>;
  the Vimeo fetcher fills them from the response body through unchecked casts
  (\<open>data.thumbnail_url as string\<close>), so at run time the fields hold whatever value the
  body carried. The fields therefore have type \<open>json\<close>.
\<close>

record ThumbnailResult =
  url :: json
  width :: json
  height :: json
  platform :: Platform
  cached :: bool

record CacheEntry =
  result :: ThumbnailResult
  timestamp :: int

section \<open>JavaScript primitives the module relies on\<close>

datatype exn = TypeError | URIError | SyntaxError | TransportError

text \<open>
  The two fields of a parsed \<open>URL\<close> object that the module reads. The parser itself
  (\<open>new URL(url)\<close>, which throws a \<open>TypeError\<close> on unparsable input), \<open>encodeURIComponent\<close>
  (which throws a \<open>URIError\<close> on a lone surrogate) and the string conversion of a
  non-string value inside a template literal (\<open>ToString\<close>, which throws a \<open>TypeError\<close> on
  an object that has no primitive value, such as the parsed \<open>{"toString": 0}\<close>) belong to
  the runtime; they are parameters.
\<close>

record URL =
  hostname :: string
  origin :: string

record env =
  new_URL :: "string \<Rightarrow> exn + URL"
  encodeURIComponent :: "string \<Rightarrow> exn + string"
  ToString :: "json \<Rightarrow> exn + string"

text \<open>\<open>s.startsWith(t)\<close> and \<open>s.includes(t)\<close>.\<close>

fun startsWith :: "string \<Rightarrow> string \<Rightarrow> bool" where
  "startsWith s [] = True"
| "startsWith [] (c # cs) = False"
| "startsWith (x # xs) (c # cs) = (x = c \<and> startsWith xs cs)"

fun includes_str :: "string \<Rightarrow> string \<Rightarrow> bool" where
  "includes_str [] t = (t = [])"
| "includes_str (x # xs) t = (startsWith (x # xs) t \<or> includes_str xs t)"

text \<open>
  \<open>toLowerCase\<close> on ASCII. The hostname of a parsed URL is ASCII (a domain is converted
  to ASCII, an opaque host is percent-encoded), so nothing else reaches it here.
\<close>

definition lower_char :: "char \<Rightarrow> char" where
  "lower_char c =
     (case map_of (zip ''ABCDEFGHIJKLMNOPQRSTUVWXYZ'' ''abcdefghijklmnopqrstuvwxyz'') c of
        Some l \<Rightarrow> l
      | None \<Rightarrow> c)"

definition toLowerCase :: "string \<Rightarrow> string" where
  "toLowerCase s = map lower_char s"

text \<open>
  Truthiness of a value; \<open>None\<close> is \<open>undefined\<close>, the result of reading a property that
  is not there.
\<close>

fun truthy :: "json \<Rightarrow> bool" where
  "truthy JNull = False"
| "truthy (JBool b) = b"
| "truthy (JNum n) = (n \<noteq> Finite 0 \<and> n \<noteq> NegZero \<and> n \<noteq> NaN)"
| "truthy (JStr s) = (s \<noteq> [])"
| "truthy (JArr xs) = True"
| "truthy (JObj ps) = True"

fun truthy_val :: "json option \<Rightarrow> bool" where
  "truthy_val None = False"
| "truthy_val (Some v) = truthy v"

text \<open>
  \<open>data.name\<close> for the property names this module reads (none of them is inherited from
  a prototype): a \<open>TypeError\<close> on \<open>null\<close>, the own property of an object, \<open>undefined\<close>
  on every other value.
\<close>

fun get_prop :: "json \<Rightarrow> string \<Rightarrow> exn + json option" where
  "get_prop JNull name = Inl TypeError"
| "get_prop (JObj ps) name = Inr (map_of ps name)"
| "get_prop (JBool b) name = Inr None"
| "get_prop (JNum n) name = Inr None"
| "get_prop (JStr s) name = Inr None"
| "get_prop (JArr xs) name = Inr None"

text \<open>\<open>a ?? b\<close> and \<open>a || b\<close>.\<close>

fun nullish_or :: "json option \<Rightarrow> json option \<Rightarrow> json option" where
  "nullish_or None b = b"
| "nullish_or (Some JNull) b = b"
| "nullish_or (Some v) b = Some v"

definition or_default :: "json option \<Rightarrow> json \<Rightarrow> json" where
  "or_default a d = (case a of None \<Rightarrow> d | Some v \<Rightarrow> if truthy v then v else d)"

text \<open>
  \<open>`${v}`\<close>: a string is spliced as it is, any other value through \<open>ToString\<close>, which
  may throw.
\<close>

fun template :: "env \<Rightarrow> json \<Rightarrow> exn + string" where
  "template E (JStr s) = Inr s"
| "template E v = ToString E v"

subsection \<open>Regular expressions of the shape \<open>(?:lit|...|lit)([class]+)\<close>\<close>

text \<open>
  All four patterns of the module are an alternation of literals followed by one
  capturing group, a greedy non-empty run of a character class. \<open>match_here\<close> tries the
  alternatives in order at one position; \<open>regex_match\<close> is \<open>s.match(re)?.[1]\<close>: the
  positions from left to right, the group of the first match, \<open>None\<close> for \<open>null\<close>.
\<close>

fun match_here :: "string list \<Rightarrow> (char \<Rightarrow> bool) \<Rightarrow> string \<Rightarrow> string option" where
  "match_here [] cls s = None"
| "match_here (lit # lits) cls s =
     (if startsWith s lit \<and> takeWhile cls (drop (length lit) s) \<noteq> []
      then Some (takeWhile cls (drop (length lit) s))
      else match_here lits cls s)"

fun regex_match :: "string list \<Rightarrow> (char \<Rightarrow> bool) \<Rightarrow> string \<Rightarrow> string option" where
  "regex_match lits cls [] = match_here lits cls []"
| "regex_match lits cls (c # cs) =
     (case match_here lits cls (c # cs) of
        Some g \<Rightarrow> Some g
      | None \<Rightarrow> regex_match lits cls cs)"

text \<open>The class \<open>[^&?/]\<close>.\<close>

definition not_amp_q_slash :: "char \<Rightarrow> bool" where
  "not_amp_q_slash c = (c \<notin> set ''&?/'')"

text \<open>The class \<open>[a-zA-Z0-9-]\<close>.\<close>

definition alnum_hyphen :: "char \<Rightarrow> bool" where
  "alnum_hyphen c =
     (c \<in> set ''abcdefghijklmnopqrstuvwxyzABCDEFGHIJKLMNOPQRSTUVWXYZ0123456789-'')"

section \<open>Platform detection (platforms.ts)\<close>

text \<open>
  The whole body of \<open>detectPlatform\<close> is inside \<open>try { ... } catch { return null }\<close>.
  The result type keeps the exception branch, so that "never throws" is a statement.
\<close>

definition detectPlatform_body :: "env \<Rightarrow> string \<Rightarrow> exn + Platform option" where
  "detectPlatform_body E u =
     (case new_URL E u of
        Inl e \<Rightarrow> Inl e
      | Inr urlObj \<Rightarrow>
          (let host = toLowerCase (hostname urlObj) in
           if includes_str host ''youtube.com'' \<or> includes_str host ''youtu.be'' then Inr (Some youtube)
           else if includes_str host ''vimeo.com'' then Inr (Some vimeo)
           else if includes_str u ''/videos/watch/'' \<or> includes_str u ''/w/'' then Inr (Some peertube)
           else Inr None))"

definition detectPlatform :: "env \<Rightarrow> string \<Rightarrow> exn + Platform option" where
  "detectPlatform E u =
     (case detectPlatform_body E u of
        Inl e \<Rightarrow> Inr None
      | Inr p \<Rightarrow> Inr p)"

text \<open>
  \<open>extractYouTubeId\<close>: the three patterns in order, the first one whose group is
  truthy.
\<close>

definition youtube_patterns :: "string list list" where
  "youtube_patterns =
     [[''youtube.com/watch?v='', ''youtu.be/'', ''youtube.com/embed/''],
      [''youtube.com/v/''],
      [''youtube.com/shorts/'']]"

fun first_pattern :: "string list list \<Rightarrow> string \<Rightarrow> string option" where
  "first_pattern [] u = None"
| "first_pattern (pat # pats) u =
     (case regex_match pat not_amp_q_slash u of
        Some g \<Rightarrow> if g \<noteq> [] then Some g else first_pattern pats u
      | None \<Rightarrow> first_pattern pats u)"

definition extractYouTubeId :: "string \<Rightarrow> string option" where
  "extractYouTubeId u = first_pattern youtube_patterns u"

section \<open>The transport (\<open>fetch\<close>)\<close>

text \<open>
  \<open>fetch\<close> is the only effect of the fetchers. A request is the URL, the method and the
  \<open>Accept\<close> header the module passes. The call rejects or resolves to a response, of
  which the module reads \<open>ok\<close> and \<open>json()\<close>; \<open>json()\<close> rejects on a body that is not
  JSON. The transport is a parameter; its answer may depend on the requests issued
  before. Every call is appended to the list of requests issued.
\<close>

datatype http_method = GET | HEAD

record request =
  req_method :: http_method
  req_url :: string
  req_accept :: "string option"

datatype response = Response (ok: bool) (json_body: "exn + json")

type_synonym transport = "request list \<Rightarrow> request \<Rightarrow> exn + response"

definition fetch :: "transport \<Rightarrow> request \<Rightarrow> request list \<Rightarrow> (exn + response) \<times> request list" where
  "fetch net req rq = (net rq req, rq @ [req])"

section \<open>Fetchers (fetchers.ts)\<close>

type_synonym fetched = "(exn + ThumbnailResult option) \<times> request list"

subsection \<open>YouTube\<close>

text \<open>The array \<open>thumbnails\<close>: url, width, height.\<close>

definition thumbnails :: "string \<Rightarrow> (string \<times> number \<times> number) list" where
  "thumbnails videoId =
     [(''https://img.youtube.com/vi/'' @ videoId @ ''/maxresdefault.jpg'', Finite 1280, Finite 720),
      (''https://img.youtube.com/vi/'' @ videoId @ ''/hqdefault.jpg'', Finite 480, Finite 360),
      (''https://img.youtube.com/vi/'' @ videoId @ ''/mqdefault.jpg'', Finite 320, Finite 180)]"

definition head_request :: "string \<Rightarrow> request" where
  "head_request u = \<lparr>req_method = HEAD, req_url = u, req_accept = None\<rparr>"

definition json_request :: "string \<Rightarrow> request" where
  "json_request u = \<lparr>req_method = GET, req_url = u, req_accept = Some ''application/json''\<rparr>"

definition youtube_result :: "string \<times> number \<times> number \<Rightarrow> ThumbnailResult" where
  "youtube_result thumb =
     \<lparr>url = JStr (fst thumb), width = JNum (fst (snd thumb)), height = JNum (snd (snd thumb)),
      platform = youtube, cached = False\<rparr>"

text \<open>
  \<open>for (const thumb of thumbnails) { try { ... } catch { continue } }\<close>, then
  \<open>return null\<close>.
\<close>

fun probe_loop :: "transport \<Rightarrow> (string \<times> number \<times> number) list \<Rightarrow> request list \<Rightarrow> fetched" where
  "probe_loop net [] rq = (Inr None, rq)"
| "probe_loop net (thumb # rest) rq =
     (case fetch net (head_request (fst thumb)) rq of
        (Inl e, rq') \<Rightarrow> probe_loop net rest rq'
      | (Inr res, rq') \<Rightarrow>
          if ok res then (Inr (Some (youtube_result thumb)), rq')
          else probe_loop net rest rq')"

definition fetchYouTubeThumbnail :: "transport \<Rightarrow> string \<Rightarrow> request list \<Rightarrow> fetched" where
  "fetchYouTubeThumbnail net u rq =
     (case extractYouTubeId u of
        None \<Rightarrow> (Inr None, rq)
      | Some videoId \<Rightarrow>
          if videoId = [] then (Inr None, rq)
          else probe_loop net (thumbnails videoId) rq)"

subsection \<open>PeerTube\<close>

text \<open>
  The pattern \<open>/\/(?:videos\/watch|w)\/([a-zA-Z0-9-]+)/\<close>, its two alternatives written
  out with the slashes around them.
\<close>

definition peertube_pattern :: "string list" where
  "peertube_pattern = [''/videos/watch/'', ''/w/'']"

text \<open>
  The \<open>try\<close> block. \<open>data.previewPath\<close> is read after \<open>data.thumbnailPath\<close> only if that
  one is nullish; reading it has no effect and throws exactly when the first read does,
  so the model reads both. The template literal \<open>`${instance}${thumbnailPath}`\<close> is
  evaluated inside the block, so a \<open>TypeError\<close> of the conversion is caught as well.
\<close>

definition fetchPeerTubeThumbnail_body :: "env \<Rightarrow> transport \<Rightarrow> string \<Rightarrow> request list \<Rightarrow> fetched" where
  "fetchPeerTubeThumbnail_body E net u rq =
     (case new_URL E u of
        Inl e \<Rightarrow> (Inl e, rq)
      | Inr urlObj \<Rightarrow>
          (let inst = origin urlObj in
           case regex_match peertube_pattern alnum_hyphen u of
             None \<Rightarrow> (Inr None, rq)
           | Some uuid \<Rightarrow>
               if uuid = [] then (Inr None, rq)
               else
                 (case fetch net (json_request (inst @ ''/api/v1/videos/'' @ uuid)) rq of
                    (Inl e, rq') \<Rightarrow> (Inl e, rq')
                  | (Inr res, rq') \<Rightarrow>
                      if \<not> ok res then (Inr None, rq')
                      else
                        (case json_body res of
                           Inl e \<Rightarrow> (Inl e, rq')
                         | Inr data \<Rightarrow>
                             (case get_prop data ''thumbnailPath'' of
                                Inl e \<Rightarrow> (Inl e, rq')
                              | Inr a \<Rightarrow>
                                  (case get_prop data ''previewPath'' of
                                     Inl e \<Rightarrow> (Inl e, rq')
                                   | Inr b \<Rightarrow>
                                       (case nullish_or a b of
                                          None \<Rightarrow> (Inr None, rq')
                                        | Some thumbnailPath \<Rightarrow>
                                            if \<not> truthy thumbnailPath then (Inr None, rq')
                                            else
                                              (case template E thumbnailPath of
                                                 Inl e \<Rightarrow> (Inl e, rq')
                                               | Inr path \<Rightarrow>
                                                   (Inr (Some
                                                      \<lparr>url = JStr (inst @ path),
                                                       width = JNum (Finite 560),
                                                       height = JNum (Finite 315),
                                                       platform = peertube,
                                                       cached = False\<rparr>), rq')))))))))"

text \<open>\<open>catch { return null }\<close>: the requests already issued stay issued.\<close>

definition catch_null :: "fetched \<Rightarrow> fetched" where
  "catch_null r = (case r of (Inl e, rq) \<Rightarrow> (Inr None, rq) | (Inr v, rq) \<Rightarrow> (Inr v, rq))"

definition fetchPeerTubeThumbnail :: "env \<Rightarrow> transport \<Rightarrow> string \<Rightarrow> request list \<Rightarrow> fetched" where
  "fetchPeerTubeThumbnail E net u rq = catch_null (fetchPeerTubeThumbnail_body E net u rq)"

subsection \<open>Vimeo\<close>

definition fetchVimeoThumbnail_body :: "env \<Rightarrow> transport \<Rightarrow> string \<Rightarrow> request list \<Rightarrow> fetched" where
  "fetchVimeoThumbnail_body E net u rq =
     (case encodeURIComponent E u of
        Inl e \<Rightarrow> (Inl e, rq)
      | Inr enc \<Rightarrow>
          (case fetch net (json_request (''https://vimeo.com/api/oembed.json?url='' @ enc)) rq of
             (Inl e, rq') \<Rightarrow> (Inl e, rq')
           | (Inr res, rq') \<Rightarrow>
               if \<not> ok res then (Inr None, rq')
               else
                 (case json_body res of
                    Inl e \<Rightarrow> (Inl e, rq')
                  | Inr data \<Rightarrow>
                      (case get_prop data ''thumbnail_url'' of
                         Inl e \<Rightarrow> (Inl e, rq')
                       | Inr None \<Rightarrow> (Inr None, rq')
                       | Inr (Some thumbnail_url) \<Rightarrow>
                           if \<not> truthy thumbnail_url then (Inr None, rq')
                           else
                             (case get_prop data ''thumbnail_width'' of
                                Inl e \<Rightarrow> (Inl e, rq')
                              | Inr w \<Rightarrow>
                                  (case get_prop data ''thumbnail_height'' of
                                     Inl e \<Rightarrow> (Inl e, rq')
                                   | Inr h \<Rightarrow>
                                       (Inr (Some
                                          \<lparr>url = thumbnail_url,
                                           width = or_default w (JNum (Finite 640)),
                                           height = or_default h (JNum (Finite 360)),
                                           platform = vimeo,
                                           cached = False\<rparr>), rq')))))))"

definition fetchVimeoThumbnail :: "env \<Rightarrow> transport \<Rightarrow> string \<Rightarrow> request list \<Rightarrow> fetched" where
  "fetchVimeoThumbnail E net u rq = catch_null (fetchVimeoThumbnail_body E net u rq)"

section \<open>The resolution cache (cache.ts)\<close>

definition CACHE_TTL :: int where
  "CACHE_TTL = 1000 * 60 * 60 * 24"

text \<open>
  \<open>thumbnailCache\<close>, a \<open>Map\<close>: an association list in insertion order. \<open>get\<close> is
  \<open>map_of\<close>, \<open>set\<close> is \<open>AList.update\<close> (an existing key keeps its place, a new key
  goes to the end), \<open>delete\<close> is \<open>AList.delete\<close>, \<open>size\<close> is \<open>length\<close>, \<open>keys()\<close> is
  \<open>map fst\<close>. The keys of a \<open>Map\<close> are distinct (\<open>distinct (map fst c)\<close>).
\<close>

type_synonym cache = "(string \<times> CacheEntry) list"

type_synonym resolved = "(exn + ThumbnailResult option) \<times> cache \<times> request list"

text \<open>
  \<open>getVideoThumbnail\<close> reads \<open>Date.now()\<close> at most twice: when it finds an entry
  (\<open>now_read\<close>) and when it stores a result (\<open>now_write\<close>). Both readings are parameters.
  \<open>getVideoThumbnail_fetch\<close> is the function from \<open>const platform = ...\<close> on.
\<close>

definition dispatch :: "env \<Rightarrow> transport \<Rightarrow> Platform \<Rightarrow> string \<Rightarrow> request list \<Rightarrow> fetched" where
  "dispatch E net p videoUrl rq =
     (case p of
        youtube \<Rightarrow> fetchYouTubeThumbnail net videoUrl rq
      | peertube \<Rightarrow> fetchPeerTubeThumbnail E net videoUrl rq
      | vimeo \<Rightarrow> fetchVimeoThumbnail E net videoUrl rq)"

definition getVideoThumbnail_fetch ::
  "env \<Rightarrow> transport \<Rightarrow> int \<Rightarrow> string \<Rightarrow> cache \<Rightarrow> request list \<Rightarrow> resolved" where
  "getVideoThumbnail_fetch E net now_write videoUrl c rq =
     (case detectPlatform E videoUrl of
        Inl e \<Rightarrow> (Inl e, c, rq)
      | Inr None \<Rightarrow> (Inr None, c, rq)
      | Inr (Some p) \<Rightarrow>
          (case dispatch E net p videoUrl rq of
             (Inl e, rq') \<Rightarrow> (Inl e, c, rq')
           | (Inr None, rq') \<Rightarrow> (Inr None, c, rq')
           | (Inr (Some res), rq') \<Rightarrow>
               (Inr (Some res),
                AList.update videoUrl \<lparr>result = res, timestamp = now_write\<rparr> c,
                rq')))"

definition getVideoThumbnail ::
  "env \<Rightarrow> transport \<Rightarrow> int \<Rightarrow> int \<Rightarrow> string \<Rightarrow> cache \<Rightarrow> request list \<Rightarrow> resolved" where
  "getVideoThumbnail E net now_read now_write videoUrl c rq =
     (case map_of c videoUrl of
        None \<Rightarrow> getVideoThumbnail_fetch E net now_write videoUrl c rq
      | Some entry \<Rightarrow>
          if now_read - timestamp entry < CACHE_TTL
          then (Inr (Some ((result entry)\<lparr>cached := True\<rparr>)), c, rq)
          else getVideoThumbnail_fetch E net now_write videoUrl (AList.delete videoUrl c) rq)"

definition clearThumbnailCache :: "cache \<Rightarrow> cache" where
  "clearThumbnailCache c = []"

text \<open>
  \<open>pruneExpiredCache\<close>. The loop iterates over the live \<open>Map\<close> and deletes only the
  entry it is visiting, so it visits exactly the entries present when it starts, in
  order: \<open>prune_loop\<close> runs over that list and carries the \<open>Map\<close> and \<open>removed\<close>.
\<close>

fun prune_loop :: "int \<Rightarrow> (string \<times> CacheEntry) list \<Rightarrow> cache \<Rightarrow> nat \<Rightarrow> cache \<times> nat" where
  "prune_loop now [] c removed = (c, removed)"
| "prune_loop now ((key, entry) # rest) c removed =
     (if now - timestamp entry \<ge> CACHE_TTL
      then prune_loop now rest (AList.delete key c) (removed + 1)
      else prune_loop now rest c removed)"

definition pruneExpiredCache :: "int \<Rightarrow> cache \<Rightarrow> nat \<times> cache" where
  "pruneExpiredCache now c = (case prune_loop now c c 0 of (c', removed) \<Rightarrow> (removed, c'))"

section \<open>Notions used in the statements\<close>

text \<open>A probe succeeds when the call resolves and the response is \<open>ok\<close>.\<close>

definition probe_ok :: "transport \<Rightarrow> request list \<Rightarrow> request \<Rightarrow> bool" where
  "probe_ok net rq req = (case net rq req of Inl e \<Rightarrow> False | Inr res \<Rightarrow> ok res)"

text \<open>
  The requests the two JSON endpoints are expected to receive, written out: a \<open>GET\<close> with
  \<open>Accept: application/json\<close>, to the oEmbed endpoint with the encoded URL, and to
  \<open>/api/v1/videos/ID\<close> on the instance.
\<close>

definition vimeo_request :: "string \<Rightarrow> request" where
  "vimeo_request enc =
     \<lparr>req_method = GET, req_url = ''https://vimeo.com/api/oembed.json?url='' @ enc,
      req_accept = Some ''application/json''\<rparr>"

definition peertube_request :: "string \<Rightarrow> string \<Rightarrow> request" where
  "peertube_request inst uuid =
     \<lparr>req_method = GET, req_url = inst @ ''/api/v1/videos/'' @ uuid,
      req_accept = Some ''application/json''\<rparr>"

text \<open>
  The identifier of a PeerTube URL, read off the raw input string: \<open>uuid\<close> is the whole
  run of letters, digits and hyphens (non-empty, of any length) that follows the leftmost
  occurrence of \<open>/videos/watch/\<close> or \<open>/w/\<close> that has such a character after it. The
  occurrence may be anywhere in the string.
\<close>

definition peertube_id :: "string \<Rightarrow> string \<Rightarrow> bool" where
  "peertube_id u uuid =
     (\<exists>pre lit post.
        (lit = ''/videos/watch/'' \<or> lit = ''/w/'') \<and>
        u = pre @ lit @ uuid @ post \<and>
        uuid \<noteq> [] \<and> (\<forall>c \<in> set uuid. alnum_hyphen c) \<and>
        (post = [] \<or> \<not> alnum_hyphen (hd post)) \<and>
        (\<forall>pre' lit' c rest.
           (lit' = ''/videos/watch/'' \<or> lit' = ''/w/'') \<and> alnum_hyphen c \<and>
           u = pre' @ lit' @ c # rest \<longrightarrow> length pre \<le> length pre'))"

text \<open>The three probes the YouTube fetcher is expected to issue for an ID: \<open>HEAD\<close>, no header.\<close>

definition youtube_probe :: "string \<Rightarrow> string \<Rightarrow> request" where
  "youtube_probe videoId name =
     \<lparr>req_method = HEAD,
      req_url = ''https://img.youtube.com/vi/'' @ videoId @ ''/'' @ name @ ''.jpg'',
      req_accept = None\<rparr>"

section \<open>A runtime and transports for the examples\<close>

text \<open>
  \<open>demo_new_URL\<close> parses the URLs of the examples, \<open>https://host/...\<close> with a host of
  letters, digits, dots and hyphens, as the URL standard does (the host in lower case, the
  origin the scheme and the host), and rejects every other string; the standard accepts
  more. \<open>demo_encodeURIComponent\<close> is the percent-encoding of \<open>encodeURIComponent\<close>.
  \<open>demo_ToString\<close> is the conversion on strings, booleans, \<open>null\<close> and objects: a parsed
  object with an own \<open>toString\<close> property (never callable) has no primitive value and
  the conversion throws, any other parsed object gives \<open>[object Object]\<close>. The examples
  convert no number and no array; on these \<open>demo_ToString\<close> is a placeholder.
\<close>

definition host_char :: "char \<Rightarrow> bool" where
  "host_char c = (c \<in> set ''abcdefghijklmnopqrstuvwxyz0123456789.-'')"

definition demo_new_URL :: "string \<Rightarrow> exn + URL" where
  "demo_new_URL u =
     (if startsWith u ''https://'' then
        (let host = toLowerCase (takeWhile (\<lambda>c. c \<noteq> CHR ''/'') (drop 8 u)) in
         if host \<noteq> [] \<and> list_all host_char host
         then Inr \<lparr>hostname = host, origin = ''https://'' @ host\<rparr>
         else Inl TypeError)
      else Inl TypeError)"

definition unreserved :: "char \<Rightarrow> bool" where
  "unreserved c =
     (c \<in> set (''abcdefghijklmnopqrstuvwxyzABCDEFGHIJKLMNOPQRSTUVWXYZ0123456789-_.!~*()'' @ [CHR 0x27]))"

definition percent :: "nat \<Rightarrow> string" where
  "percent b = [CHR ''%'', ''0123456789ABCDEF'' ! (b div 16), ''0123456789ABCDEF'' ! (b mod 16)]"

definition encode_unit :: "char \<Rightarrow> string" where
  "encode_unit c =
     (if unreserved c then [c]
      else if (of_char c :: nat) < 128 then percent (of_char c)
      else percent (192 + of_char c div 64) @ percent (128 + of_char c mod 64))"

definition demo_encodeURIComponent :: "string \<Rightarrow> exn + string" where
  "demo_encodeURIComponent u = Inr (concat (map encode_unit u))"

fun demo_ToString :: "json \<Rightarrow> exn + string" where
  "demo_ToString (JStr s) = Inr s"
| "demo_ToString (JBool b) = Inr (if b then ''true'' else ''false'')"
| "demo_ToString JNull = Inr ''null''"
| "demo_ToString (JObj ps) =
     (if map_of ps ''toString'' = None then Inr ''[object Object]'' else Inl TypeError)"
| "demo_ToString (JNum n) = Inr ''0''"
| "demo_ToString (JArr xs) = Inr []"

definition demo_env :: env where
  "demo_env = \<lparr>new_URL = demo_new_URL, encodeURIComponent = demo_encodeURIComponent,
      ToString = demo_ToString\<rparr>"

text \<open>
  Transports: one that always rejects, one that answers every request with \<open>ok\<close> and a
  given JSON body, one that rejects the first two requests and then answers \<open>ok\<close> with
  no JSON body.
\<close>

definition net_down :: transport where
  "net_down rq req = Inl TransportError"

definition net_json :: "json \<Rightarrow> transport" where
  "net_json body rq req = Inr (Response True (Inr body))"

definition net_third :: transport where
  "net_third rq req = (if length rq < 2 then Inl TransportError else Inr (Response True (Inl SyntaxError)))"

text \<open>A URL, a response body, the result resolved from them and a cache that holds it.\<close>

definition demo_result :: ThumbnailResult where
  "demo_result = \<lparr>url = JStr ''X'', width = JNum (Finite 640), height = JNum (Finite 360),
      platform = vimeo, cached = False\<rparr>"

definition demo_url :: string where
  "demo_url = ''https://vimeo.com/123456''"

definition demo_body :: json where
  "demo_body = JObj [(''thumbnail_url'', JStr ''X'')]"

definition demo_cache :: cache where
  "demo_cache = [(demo_url, \<lparr>result = demo_result, timestamp = 1000\<rparr>)]"

section \<open>States of the cache\<close>

text \<open>
  The states the module can be in: \<open>thumbnailCache\<close> starts empty and is changed only by
  the three exported operations that write to it. The runtime \<open>E\<close> is fixed; the
  transport, the clock readings and the requests issued so far are arbitrary at every
  call.
\<close>

inductive reachable :: "env \<Rightarrow> cache \<Rightarrow> bool" for E :: env where
  initial: "reachable E []"
| resolve: "reachable E c \<Longrightarrow>
     getVideoThumbnail E net now_read now_write videoUrl c rq = (r, c', rq') \<Longrightarrow>
     reachable E c'"
| clear: "reachable E c \<Longrightarrow> reachable E (clearThumbnailCache c)"
| prune: "reachable E c \<Longrightarrow> pruneExpiredCache now c = (removed, c') \<Longrightarrow> reachable E c'"

text \<open>What holds in every reachable state: distinct keys, each of a detected platform.\<close>

definition cache_ok :: "env \<Rightarrow> cache \<Rightarrow> bool" where
  "cache_ok E c =
     (distinct (map fst c) \<and> list_all (\<lambda>k. detectPlatform E k \<noteq> Inr None) (map fst c))"

section \<open>\<open>getCacheStats\<close> and the store\<close>

text \<open>
  \<open>getCacheStats\<close> returns \<open>{ size, keys }\<close>, where \<open>keys\<close> is a new array made by
  \<open>Array.from\<close>. To speak about that array after later calls, the store holds the
  module's \<open>Map\<close> and the arrays allocated so far; the address of an array is its index.
  The function returns the size and the address of the new array.
\<close>

record store =
  thumbnailCache :: cache
  arrays :: "string list list"

definition getCacheStats :: "store \<Rightarrow> (nat \<times> nat) \<times> store" where
  "getCacheStats s =
     ((length (thumbnailCache s), length (arrays s)),
      s\<lparr>arrays := arrays s @ [map fst (thumbnailCache s)]\<rparr>)"

text \<open>The exported operations as steps on the store.\<close>

datatype call =
    Resolve env transport int int string "request list"
  | Clear
  | Prune int
  | Stats

fun step :: "store \<Rightarrow> call \<Rightarrow> store" where
  "step s (Resolve E net now_read now_write videoUrl rq) =
     s\<lparr>thumbnailCache :=
         fst (snd (getVideoThumbnail E net now_read now_write videoUrl (thumbnailCache s) rq))\<rparr>"
| "step s Clear = s\<lparr>thumbnailCache := clearThumbnailCache (thumbnailCache s)\<rparr>"
| "step s (Prune now) = s\<lparr>thumbnailCache := snd (pruneExpiredCache now (thumbnailCache s))\<rparr>"
| "step s Stats = snd (getCacheStats s)"

section \<open>Strings and patterns\<close>

lemma startsWith_iff: "startsWith s t \<longleftrightarrow> (\<exists>post. s = t @ post)"
  by (induction s t rule: startsWith.induct) auto

lemma includes_str_iff: "includes_str s t \<longleftrightarrow> (\<exists>pre post. s = pre @ t @ post)"
proof (induction s)
  case Nil
  then show ?case by auto
next
  case (Cons x xs)
  show ?case
  proof
    assume "includes_str (x # xs) t"
    then consider "startsWith (x # xs) t" | "includes_str xs t" by auto
    then show "\<exists>pre post. x # xs = pre @ t @ post"
    proof cases
      case 1
      then obtain post where "x # xs = t @ post" by (auto simp: startsWith_iff)
      then have "x # xs = [] @ t @ post" by simp
      then show ?thesis by blast
    next
      case 2
      then obtain pre post where "xs = pre @ t @ post" using Cons.IH by auto
      then have "x # xs = (x # pre) @ t @ post" by simp
      then show ?thesis by blast
    qed
  next
    assume "\<exists>pre post. x # xs = pre @ t @ post"
    then obtain pre post where e: "x # xs = pre @ t @ post" by blast
    show "includes_str (x # xs) t"
    proof (cases pre)
      case Nil
      then have "startsWith (x # xs) t" using e by (auto simp: startsWith_iff)
      then show ?thesis by simp
    next
      case (Cons p ps)
      then have "xs = ps @ t @ post" using e by simp
      then have "includes_str xs t" using Cons.IH by blast
      then show ?thesis by simp
    qed
  qed
qed

lemma match_here_Some:
  "match_here lits cls s = Some g \<Longrightarrow>
     g \<noteq> [] \<and> (\<forall>c \<in> set g. cls c) \<and> (\<exists>lit \<in> set lits. \<exists>post. s = lit @ g @ post)"
proof (induction lits)
  case Nil
  then show ?case by simp
next
  case (Cons lit lits)
  show ?case
  proof (cases "startsWith s lit \<and> takeWhile cls (drop (length lit) s) \<noteq> []")
    case True
    then have g: "g = takeWhile cls (drop (length lit) s)" using Cons.prems by simp
    from True obtain post where s: "s = lit @ post" by (auto simp: startsWith_iff)
    have "post = g @ dropWhile cls post" using g s by simp
    then have "s = lit @ g @ dropWhile cls post" using s by simp
    moreover have "\<forall>c \<in> set g. cls c" using g by (auto dest: set_takeWhileD)
    ultimately show ?thesis using True g by auto
  next
    case False
    then have "match_here lits cls s = Some g" using Cons.prems by auto
    then show ?thesis using Cons.IH by auto
  qed
qed

lemma match_here_None:
  "match_here lits cls s = None \<longleftrightarrow>
     \<not> (\<exists>lit \<in> set lits. \<exists>c post. s = lit @ c # post \<and> cls c)"
proof (induction lits)
  case Nil
  then show ?case by simp
next
  case (Cons lit lits)
  have "(startsWith s lit \<and> takeWhile cls (drop (length lit) s) \<noteq> []) \<longleftrightarrow>
        (\<exists>c post. s = lit @ c # post \<and> cls c)" (is "?L \<longleftrightarrow> ?R")
  proof
    assume ?L
    then obtain post where s: "s = lit @ post" and t: "takeWhile cls post \<noteq> []"
      by (auto simp: startsWith_iff)
    then obtain c cs where "post = c # cs" "cls c" by (cases post) (auto split: if_splits)
    then show ?R using s by auto
  next
    assume ?R
    then show ?L by (auto simp: startsWith_iff)
  qed
  then show ?case using Cons.IH by auto
qed

lemma regex_match_Some:
  "regex_match lits cls s = Some g \<Longrightarrow>
     g \<noteq> [] \<and> (\<forall>c \<in> set g. cls c) \<and> (\<exists>lit \<in> set lits. \<exists>pre post. s = pre @ lit @ g @ post)"
proof (induction s)
  case Nil
  then have "match_here lits cls [] = Some g" by simp
  from match_here_Some[OF this] show ?case by fastforce
next
  case (Cons x xs)
  show ?case
  proof (cases "match_here lits cls (x # xs)")
    case None
    then have "regex_match lits cls xs = Some g" using Cons.prems by simp
    then obtain lit pre post where a: "g \<noteq> []" "\<forall>c \<in> set g. cls c" "lit \<in> set lits" "xs = pre @ lit @ g @ post"
      using Cons.IH by blast
    then have "x # xs = (x # pre) @ lit @ g @ post" by simp
    then show ?thesis using a by blast
  next
    case (Some h)
    then have "h = g" using Cons.prems by simp
    then obtain lit post where a: "g \<noteq> []" "\<forall>c \<in> set g. cls c" "lit \<in> set lits" "x # xs = lit @ g @ post"
      using match_here_Some[of lits cls "x # xs" g] Some by blast
    then have "x # xs = [] @ lit @ g @ post" by simp
    then show ?thesis using a by blast
  qed
qed

lemma regex_match_None:
  "regex_match lits cls s = None \<longleftrightarrow>
     \<not> (\<exists>lit \<in> set lits. \<exists>pre c post. s = pre @ lit @ c # post \<and> cls c)"
proof (induction s)
  case Nil
  show ?case by (simp add: match_here_None)
next
  case (Cons x xs)
  have "(\<exists>lit \<in> set lits. \<exists>pre c post. x # xs = pre @ lit @ c # post \<and> cls c) \<longleftrightarrow>
        (\<exists>lit \<in> set lits. \<exists>c post. x # xs = lit @ c # post \<and> cls c) \<or>
        (\<exists>lit \<in> set lits. \<exists>pre c post. xs = pre @ lit @ c # post \<and> cls c)" (is "?A \<longleftrightarrow> ?B \<or> ?C")
  proof
    assume ?A
    then obtain lit pre c post where a: "lit \<in> set lits" "x # xs = pre @ lit @ c # post" "cls c" by blast
    show "?B \<or> ?C"
    proof (cases pre)
      case Nil
      then show ?thesis using a by auto
    next
      case (Cons p ps)
      then have "xs = ps @ lit @ c # post" using a by simp
      then show ?thesis using a by blast
    qed
  next
    assume "?B \<or> ?C"
    then show ?A
    proof
      assume ?B
      then obtain lit c post where a: "lit \<in> set lits" "x # xs = lit @ c # post" "cls c" by blast
      then have "x # xs = [] @ lit @ c # post" by simp
      then show ?A using a by blast
    next
      assume ?C
      then obtain lit pre c post where a: "lit \<in> set lits" "xs = pre @ lit @ c # post" "cls c" by blast
      then have "x # xs = (x # pre) @ lit @ c # post" by simp
      then show ?A using a by blast
    qed
  qed
  have split: "?A \<longleftrightarrow> ?B \<or> ?C" by fact
  have step: "regex_match lits cls (x # xs) = None \<longleftrightarrow>
      match_here lits cls (x # xs) = None \<and> regex_match lits cls xs = None"
    by (simp split: option.splits)
  have here: "match_here lits cls (x # xs) = None \<longleftrightarrow> \<not> ?B"
    by (rule match_here_None)
  have rest: "regex_match lits cls xs = None \<longleftrightarrow> \<not> ?C"
    by (rule Cons.IH)
  show ?case
    unfolding step here rest split by simp
qed

lemma includes_str_sublist: "includes_str s t \<longleftrightarrow> sublist t s"
  unfolding includes_str_iff sublist_def by simp

subsection \<open>The PeerTube pattern\<close>

text \<open>
  What the pattern captures: at one position, the whole run of class characters after the
  literal; over the string, the match at the leftmost position that has one.
\<close>

lemma bex_peertube_pattern:
  "(\<exists>lit \<in> set peertube_pattern. P lit) = (P ''/videos/watch/'' \<or> P ''/w/'')"
  by (simp add: peertube_pattern_def)

lemma match_here_run:
  "match_here lits cls s = Some g \<Longrightarrow>
     \<exists>lit \<in> set lits. startsWith s lit \<and> g = takeWhile cls (drop (length lit) s) \<and> g \<noteq> []"
  by (induction lits) (auto split: if_splits)

lemma takeWhile_run:
  assumes "\<forall>c \<in> set g. cls c" "post = [] \<or> \<not> cls (hd post)"
  shows "takeWhile cls (g @ post) = g"
proof (cases post)
  case Nil
  then show ?thesis using assms(1) by simp
next
  case (Cons x xs)
  then have "\<not> cls x" using assms(2) by simp
  then show ?thesis using assms(1) Cons by (simp add: takeWhile_tail)
qed

lemma match_here_hit:
  assumes "(\<forall>c \<in> set g. cls c)" "post = [] \<or> \<not> cls (hd post)" "g \<noteq> []"
  shows "match_here (lit # lits) cls (lit @ g @ post) = Some g"
proof -
  have "startsWith (lit @ g @ post) lit" by (auto simp: startsWith_iff)
  moreover have "takeWhile cls (drop (length lit) (lit @ g @ post)) = g"
    using takeWhile_run [OF assms(1,2)] by simp
  ultimately show ?thesis using assms(3) by simp
qed

lemma match_here_peertube:
  "match_here peertube_pattern cls s = Some g \<longleftrightarrow>
     (\<exists>lit post. (lit = ''/videos/watch/'' \<or> lit = ''/w/'') \<and> s = lit @ g @ post \<and>
        g \<noteq> [] \<and> (\<forall>c \<in> set g. cls c) \<and> (post = [] \<or> \<not> cls (hd post)))"
  (is "?L \<longleftrightarrow> ?R")
proof
  assume ?L
  from match_here_run [OF this] obtain lit where lit: "lit = ''/videos/watch/'' \<or> lit = ''/w/''"
    and sw: "startsWith s lit" and g: "g = takeWhile cls (drop (length lit) s)" and ne: "g \<noteq> []"
    unfolding bex_peertube_pattern by blast
  from sw obtain rest where s: "s = lit @ rest" by (auto simp: startsWith_iff)
  have g': "g = takeWhile cls rest" using g s by simp
  have "rest = g @ dropWhile cls rest" using g' by simp
  then have "s = lit @ g @ dropWhile cls rest" using s by simp
  moreover have "\<forall>c \<in> set g. cls c" using g' by (auto dest: set_takeWhileD)
  moreover have "dropWhile cls rest = [] \<or> \<not> cls (hd (dropWhile cls rest))"
    using hd_dropWhile [of cls rest] by blast
  ultimately show ?R using lit ne by blast
next
  assume ?R
  then obtain lit post where lit: "lit = ''/videos/watch/'' \<or> lit = ''/w/''"
    and s: "s = lit @ g @ post" and ne: "g \<noteq> []" and all: "\<forall>c \<in> set g. cls c"
    and mx: "post = [] \<or> \<not> cls (hd post)" by blast
  from lit show ?L
  proof
    assume "lit = ''/videos/watch/''"
    then show ?L
      unfolding peertube_pattern_def s using match_here_hit [OF all mx ne] by blast
  next
    assume w: "lit = ''/w/''"
    have miss: "\<not> startsWith (''/w/'' @ g @ post) ''/videos/watch/''" by simp
    have "match_here [''/videos/watch/'', ''/w/''] cls (''/w/'' @ g @ post) =
          match_here [''/w/''] cls (''/w/'' @ g @ post)"
      using miss by (simp only: match_here.simps if_False simp_thms)
    also have "\<dots> = Some g" by (rule match_here_hit [OF all mx ne])
    finally show ?L unfolding peertube_pattern_def s w .
  qed
qed

lemma regex_match_leftmost:
  "regex_match lits cls s = Some g \<longleftrightarrow>
     (\<exists>k \<le> length s. match_here lits cls (drop k s) = Some g \<and>
        (\<forall>j < k. match_here lits cls (drop j s) = None))"
proof (induction s)
  case Nil
  show ?case by simp
next
  case (Cons x xs)
  show ?case
  proof (cases "match_here lits cls (x # xs)")
    case (Some h)
    have "(\<exists>k \<le> length (x # xs). match_here lits cls (drop k (x # xs)) = Some g \<and>
        (\<forall>j < k. match_here lits cls (drop j (x # xs)) = None)) \<longleftrightarrow> h = g" (is "?R \<longleftrightarrow> _")
    proof
      assume ?R
      then obtain k where k: "match_here lits cls (drop k (x # xs)) = Some g"
        and lm: "\<forall>j < k. match_here lits cls (drop j (x # xs)) = None" by blast
      have "k = 0"
      proof (rule ccontr)
        assume "k \<noteq> 0"
        then have "match_here lits cls (drop 0 (x # xs)) = None" using lm by blast
        then show False using Some by simp
      qed
      then show "h = g" using k Some by simp
    next
      assume "h = g"
      then have "match_here lits cls (drop 0 (x # xs)) = Some g" using Some by simp
      then show ?R by (intro exI [of _ 0]) simp
    qed
    moreover have "regex_match lits cls (x # xs) = Some g \<longleftrightarrow> h = g"
      using Some by simp
    ultimately show ?thesis by simp
  next
    case None
    have "(\<exists>k \<le> length (x # xs). match_here lits cls (drop k (x # xs)) = Some g \<and>
        (\<forall>j < k. match_here lits cls (drop j (x # xs)) = None)) \<longleftrightarrow>
        (\<exists>k \<le> length xs. match_here lits cls (drop k xs) = Some g \<and>
        (\<forall>j < k. match_here lits cls (drop j xs) = None))" (is "?R \<longleftrightarrow> ?R'")
    proof
      assume ?R
      then obtain k where le: "k \<le> length (x # xs)"
        and k: "match_here lits cls (drop k (x # xs)) = Some g"
        and lm: "\<forall>j < k. match_here lits cls (drop j (x # xs)) = None" by blast
      have "k \<noteq> 0" using k None by (auto intro: ccontr)
      then obtain k' where k': "k = Suc k'" by (cases k) auto
      have "\<forall>j < k'. match_here lits cls (drop j xs) = None"
      proof (intro allI impI)
        fix j assume "j < k'"
        then have "Suc j < k" using k' by simp
        then have "match_here lits cls (drop (Suc j) (x # xs)) = None" using lm by blast
        then show "match_here lits cls (drop j xs) = None" by simp
      qed
      moreover have "k' \<le> length xs" using le k' by simp
      moreover have "match_here lits cls (drop k' xs) = Some g" using k k' by simp
      ultimately show ?R' by blast
    next
      assume ?R'
      then obtain k where le: "k \<le> length xs"
        and k: "match_here lits cls (drop k xs) = Some g"
        and lm: "\<forall>j < k. match_here lits cls (drop j xs) = None" by blast
      have "\<forall>j < Suc k. match_here lits cls (drop j (x # xs)) = None"
      proof (intro allI impI)
        fix j assume j: "j < Suc k"
        show "match_here lits cls (drop j (x # xs)) = None"
        proof (cases j)
          case 0
          then show ?thesis using None by simp
        next
          case (Suc j')
          then have "j' < k" using j by simp
          then show ?thesis using lm Suc by simp
        qed
      qed
      moreover have "Suc k \<le> length (x # xs)" using le by simp
      moreover have "match_here lits cls (drop (Suc k) (x # xs)) = Some g" using k by simp
      ultimately show ?R by blast
    qed
    moreover have "regex_match lits cls (x # xs) = Some g \<longleftrightarrow> regex_match lits cls xs = Some g"
      using None by simp
    ultimately show ?thesis using Cons.IH by simp
  qed
qed

lemma regex_match_peertube_id_1:
  assumes "regex_match peertube_pattern alnum_hyphen u = Some uuid"
  shows "peertube_id u uuid"
proof -
  from assms obtain k where le: "k \<le> length u"
    and k: "match_here peertube_pattern alnum_hyphen (drop k u) = Some uuid"
    and lm: "\<And>j. j < k \<Longrightarrow> match_here peertube_pattern alnum_hyphen (drop j u) = None"
    unfolding regex_match_leftmost by auto
  from k [unfolded match_here_peertube] obtain lit post
    where lit: "lit = ''/videos/watch/'' \<or> lit = ''/w/''"
    and d: "drop k u = lit @ uuid @ post" and ne: "uuid \<noteq> []"
    and all: "\<forall>c \<in> set uuid. alnum_hyphen c"
    and mx: "post = [] \<or> \<not> alnum_hyphen (hd post)"
    by auto
  have "take k u @ drop k u = u" by (rule append_take_drop_id)
  then have u: "u = take k u @ lit @ uuid @ post" unfolding d by (rule sym)
  have len: "length (take k u) = k" using le by simp
  have left: "length (take k u) \<le> length pre'"
    if l: "lit' = ''/videos/watch/'' \<or> lit' = ''/w/''" and c: "alnum_hyphen c"
      and e: "u = pre' @ lit' @ c # rest"
    for pre' lit' c rest
  proof (rule ccontr)
    assume "\<not> length (take k u) \<le> length pre'"
    then have "length pre' < k" using len by simp
    then have "match_here peertube_pattern alnum_hyphen (drop (length pre') u) = None"
      by (rule lm)
    moreover have "drop (length pre') u = lit' @ c # rest" by (subst e) simp
    ultimately have "match_here peertube_pattern alnum_hyphen (lit' @ c # rest) = None"
      by simp
    then have n: "\<not> (\<exists>l \<in> set peertube_pattern. \<exists>c' post'.
        lit' @ c # rest = l @ c' # post' \<and> alnum_hyphen c')"
      unfolding match_here_None .
    have "lit' \<in> set peertube_pattern" using l by (auto simp: peertube_pattern_def)
    then show False using n c by blast
  qed
  show ?thesis
    unfolding peertube_id_def
  proof (intro exI conjI allI impI)
    show "lit = ''/videos/watch/'' \<or> lit = ''/w/''" by (rule lit)
    show "u = take k u @ lit @ uuid @ post" by (rule u)
    show "uuid \<noteq> []" by (rule ne)
    show "\<forall>c \<in> set uuid. alnum_hyphen c" by (rule all)
    show "post = [] \<or> \<not> alnum_hyphen (hd post)" by (rule mx)
    fix pre' lit' c rest
    assume "(lit' = ''/videos/watch/'' \<or> lit' = ''/w/'') \<and> alnum_hyphen c \<and>
        u = pre' @ lit' @ c # rest"
    then show "length (take k u) \<le> length pre'" using left by blast
  qed
qed

lemma regex_match_peertube_id_2:
  assumes "peertube_id u uuid"
  shows "regex_match peertube_pattern alnum_hyphen u = Some uuid"
proof -
  from assms obtain pre lit post where H:
    "(lit = ''/videos/watch/'' \<or> lit = ''/w/'') \<and>
     u = pre @ lit @ uuid @ post \<and>
     uuid \<noteq> [] \<and> (\<forall>c \<in> set uuid. alnum_hyphen c) \<and>
     (post = [] \<or> \<not> alnum_hyphen (hd post)) \<and>
     (\<forall>pre' lit' c rest.
        (lit' = ''/videos/watch/'' \<or> lit' = ''/w/'') \<and> alnum_hyphen c \<and>
        u = pre' @ lit' @ c # rest \<longrightarrow> length pre \<le> length pre')"
    unfolding peertube_id_def by (elim exE)
  note lit = H [THEN conjunct1]
  note u = H [THEN conjunct2, THEN conjunct1]
  note ne = H [THEN conjunct2, THEN conjunct2, THEN conjunct1]
  note all = H [THEN conjunct2, THEN conjunct2, THEN conjunct2, THEN conjunct1]
  note mx = H [THEN conjunct2, THEN conjunct2, THEN conjunct2, THEN conjunct2, THEN conjunct1]
  note left = H [THEN conjunct2, THEN conjunct2, THEN conjunct2, THEN conjunct2, THEN conjunct2,
      rule_format]
  have d: "drop (length pre) u = lit @ uuid @ post" by (subst u) simp
  have "(lit = ''/videos/watch/'' \<or> lit = ''/w/'') \<and>
      lit @ uuid @ post = lit @ uuid @ post \<and> uuid \<noteq> [] \<and>
      (\<forall>c \<in> set uuid. alnum_hyphen c) \<and> (post = [] \<or> \<not> alnum_hyphen (hd post))"
    using lit ne all mx by simp
  then have "match_here peertube_pattern alnum_hyphen (lit @ uuid @ post) = Some uuid"
    unfolding match_here_peertube by blast
  then have k: "match_here peertube_pattern alnum_hyphen (drop (length pre) u) = Some uuid"
    using d by simp
  have lm: "match_here peertube_pattern alnum_hyphen (drop j u) = None" if "j < length pre" for j
  proof -
    have "\<not> (\<exists>l \<in> set peertube_pattern. \<exists>c rest. drop j u = l @ c # rest \<and> alnum_hyphen c)"
    proof
      assume "\<exists>l \<in> set peertube_pattern. \<exists>c rest. drop j u = l @ c # rest \<and> alnum_hyphen c"
      then obtain l c rest where l: "l = ''/videos/watch/'' \<or> l = ''/w/''"
        and dj: "drop j u = l @ c # rest" and c: "alnum_hyphen c"
        unfolding bex_peertube_pattern by blast
      have "take j u @ drop j u = u" by (rule append_take_drop_id)
      then have "u = take j u @ l @ c # rest" unfolding dj by (rule sym)
      with l c have "length pre \<le> length (take j u)" by (intro left) simp
      moreover have "length (take j u) \<le> j" by simp
      ultimately show False using that by simp
    qed
    then show ?thesis unfolding match_here_None .
  qed
  have le: "length pre \<le> length u" by (subst u) simp
  show ?thesis
    unfolding regex_match_leftmost
    by (rule exI [of _ "length pre"]) (simp add: le k lm)
qed

lemma regex_match_peertube_id:
  "regex_match peertube_pattern alnum_hyphen u = Some uuid \<longleftrightarrow> peertube_id u uuid"
  using regex_match_peertube_id_1 regex_match_peertube_id_2 by blast

lemma regex_match_w_any_length:
  assumes "uuid \<noteq> []" "\<forall>c \<in> set uuid. alnum_hyphen c"
  shows "regex_match peertube_pattern alnum_hyphen (''https://pt.example.com/w/'' @ uuid) = Some uuid"
proof -
  have tw: "takeWhile alnum_hyphen uuid = uuid" using assms(2) by simp
  show ?thesis using assms(1) by (simp add: peertube_pattern_def tw)
qed

lemmas demo_defs = demo_env_def demo_new_URL_def demo_encodeURIComponent_def encode_unit_def
  percent_def unreserved_def host_char_def toLowerCase_def lower_char_def Let_def

section \<open>Properties of the fetchers\<close>

lemma first_pattern_nonempty: "first_pattern pats u = Some g \<Longrightarrow> g \<noteq> []"
  by (induction pats) (auto split: option.splits if_splits)

lemma extractYouTubeId_nonempty: "extractYouTubeId u = Some v \<Longrightarrow> v \<noteq> []"
  unfolding extractYouTubeId_def by (rule first_pattern_nonempty)

lemma probe_loop_step:
  "probe_loop net (t # ts) rq =
     (if probe_ok net rq (head_request (fst t))
      then (Inr (Some (youtube_result t)), rq @ [head_request (fst t)])
      else probe_loop net ts (rq @ [head_request (fst t)]))"
  by (simp add: fetch_def probe_ok_def split: sum.splits)

lemma probe_loop_returns: "\<exists>r rq'. probe_loop net ts rq = (Inr r, rq')"
  by (induction ts arbitrary: rq) (auto simp: fetch_def split: sum.splits)

lemma catch_null_returns: "\<exists>r rq'. catch_null x = (Inr r, rq')"
  by (cases x) (auto simp: catch_null_def split: sum.splits)

text \<open>
  Claim C3. Without an extractable ID \<open>fetchYouTubeThumbnail\<close> returns none and issues no
  request. With an ID it issues \<open>HEAD\<close> requests, without an \<open>Accept\<close> header, for
  \<open>maxresdefault.jpg\<close> (1280x720), \<open>hqdefault.jpg\<close> (480x360) and \<open>mqdefault.jpg\<close>
  (320x180), in this order, stops at the first probe that succeeds and returns its
  descriptor with platform \<open>youtube\<close> and \<open>cached = False\<close>; a probe that throws or
  answers not-ok counts as failed and the next one is tried; after three failures the
  result is none.
\<close>

theorem fetchYouTubeThumbnail_probes:
  "(extractYouTubeId u = None \<longrightarrow> fetchYouTubeThumbnail net u rq = (Inr None, rq)) \<and>
   (\<forall>v r1 r2 r3.
      extractYouTubeId u = Some v \<and>
      r1 = \<lparr>req_method = HEAD,
            req_url = ''https://img.youtube.com/vi/'' @ v @ ''/maxresdefault.jpg'',
            req_accept = None\<rparr> \<and>
      r2 = \<lparr>req_method = HEAD,
            req_url = ''https://img.youtube.com/vi/'' @ v @ ''/hqdefault.jpg'',
            req_accept = None\<rparr> \<and>
      r3 = \<lparr>req_method = HEAD,
            req_url = ''https://img.youtube.com/vi/'' @ v @ ''/mqdefault.jpg'',
            req_accept = None\<rparr> \<longrightarrow>
      fetchYouTubeThumbnail net u rq =
        (if probe_ok net rq r1 then
           (Inr (Some \<lparr>url = JStr (''https://img.youtube.com/vi/'' @ v @ ''/maxresdefault.jpg''),
                       width = JNum (Finite 1280), height = JNum (Finite 720),
                       platform = youtube, cached = False\<rparr>),
            rq @ [r1])
         else if probe_ok net (rq @ [r1]) r2 then
           (Inr (Some \<lparr>url = JStr (''https://img.youtube.com/vi/'' @ v @ ''/hqdefault.jpg''),
                       width = JNum (Finite 480), height = JNum (Finite 360),
                       platform = youtube, cached = False\<rparr>),
            rq @ [r1, r2])
         else if probe_ok net (rq @ [r1, r2]) r3 then
           (Inr (Some \<lparr>url = JStr (''https://img.youtube.com/vi/'' @ v @ ''/mqdefault.jpg''),
                       width = JNum (Finite 320), height = JNum (Finite 180),
                       platform = youtube, cached = False\<rparr>),
            rq @ [r1, r2, r3])
         else (Inr None, rq @ [r1, r2, r3])))"
proof (intro conjI impI allI)
  assume "extractYouTubeId u = None"
  then show "fetchYouTubeThumbnail net u rq = (Inr None, rq)"
    by (simp add: fetchYouTubeThumbnail_def)
next
  fix v r1 r2 r3
  assume a: "extractYouTubeId u = Some v \<and>
      r1 = \<lparr>req_method = HEAD,
            req_url = ''https://img.youtube.com/vi/'' @ v @ ''/maxresdefault.jpg'',
            req_accept = None\<rparr> \<and>
      r2 = \<lparr>req_method = HEAD,
            req_url = ''https://img.youtube.com/vi/'' @ v @ ''/hqdefault.jpg'',
            req_accept = None\<rparr> \<and>
      r3 = \<lparr>req_method = HEAD,
            req_url = ''https://img.youtube.com/vi/'' @ v @ ''/mqdefault.jpg'',
            req_accept = None\<rparr>"
  then have ne: "v \<noteq> []" by (auto dest: extractYouTubeId_nonempty)
  have f: "fetchYouTubeThumbnail net u rq = probe_loop net (thumbnails v) rq"
    using a ne by (simp add: fetchYouTubeThumbnail_def)
  show "fetchYouTubeThumbnail net u rq =
        (if probe_ok net rq r1 then
           (Inr (Some \<lparr>url = JStr (''https://img.youtube.com/vi/'' @ v @ ''/maxresdefault.jpg''),
                       width = JNum (Finite 1280), height = JNum (Finite 720),
                       platform = youtube, cached = False\<rparr>),
            rq @ [r1])
         else if probe_ok net (rq @ [r1]) r2 then
           (Inr (Some \<lparr>url = JStr (''https://img.youtube.com/vi/'' @ v @ ''/hqdefault.jpg''),
                       width = JNum (Finite 480), height = JNum (Finite 360),
                       platform = youtube, cached = False\<rparr>),
            rq @ [r1, r2])
         else if probe_ok net (rq @ [r1, r2]) r3 then
           (Inr (Some \<lparr>url = JStr (''https://img.youtube.com/vi/'' @ v @ ''/mqdefault.jpg''),
                       width = JNum (Finite 320), height = JNum (Finite 180),
                       platform = youtube, cached = False\<rparr>),
            rq @ [r1, r2, r3])
         else (Inr None, rq @ [r1, r2, r3]))"
    unfolding f thumbnails_def probe_loop_step
    using a by (simp add: youtube_result_def head_request_def)
qed

text \<open>
  C3 on inputs: two probes throw and the third succeeds; a channel URL has no ID.
\<close>

theorem fetchYouTubeThumbnail_probes_witness:
  "fetchYouTubeThumbnail net_third ''https://www.youtube.com/watch?v=abc123'' [] =
     (Inr (Some \<lparr>url = JStr ''https://img.youtube.com/vi/abc123/mqdefault.jpg'',
                 width = JNum (Finite 320), height = JNum (Finite 180),
                 platform = youtube, cached = False\<rparr>),
      [\<lparr>req_method = HEAD, req_url = ''https://img.youtube.com/vi/abc123/maxresdefault.jpg'',
        req_accept = None\<rparr>,
       \<lparr>req_method = HEAD, req_url = ''https://img.youtube.com/vi/abc123/hqdefault.jpg'',
        req_accept = None\<rparr>,
       \<lparr>req_method = HEAD, req_url = ''https://img.youtube.com/vi/abc123/mqdefault.jpg'',
        req_accept = None\<rparr>]) \<and>
   fetchYouTubeThumbnail net_third ''https://www.youtube.com/@channel'' [] = (Inr None, [])"
proof -
  have e: "extractYouTubeId ''https://www.youtube.com/watch?v=abc123'' = Some ''abc123''"
    by (simp add: extractYouTubeId_def youtube_patterns_def not_amp_q_slash_def)
  have n: "extractYouTubeId ''https://www.youtube.com/@channel'' = None"
    by (simp add: extractYouTubeId_def youtube_patterns_def not_amp_q_slash_def)
  show ?thesis
    using fetchYouTubeThumbnail_probes [of "''https://www.youtube.com/watch?v=abc123''" net_third "[]"]
      fetchYouTubeThumbnail_probes [of "''https://www.youtube.com/@channel''" net_third "[]"] e n
    by (simp add: probe_ok_def net_third_def)
qed

text \<open>
  Claim C8. Each of the three fetchers returns normally, with a result or none, for every
  input, every runtime and every transport. Whatever the \<open>try\<close> block of the Vimeo or
  the PeerTube fetcher throws (the URL parser, \<open>encodeURIComponent\<close>, a rejected
  \<open>fetch\<close>, a rejected \<open>json()\<close>, a property read on \<open>null\<close>) becomes none; in the
  YouTube fetcher the only call that can throw is the probe, which is caught.
\<close>

theorem fetchers_never_throw:
  "(\<exists>r rq'. fetchYouTubeThumbnail net u rq = (Inr r, rq')) \<and>
   (\<exists>r rq'. fetchVimeoThumbnail E net u rq = (Inr r, rq')) \<and>
   (\<exists>r rq'. fetchPeerTubeThumbnail E net u rq = (Inr r, rq')) \<and>
   (\<forall>e rq'. fetchVimeoThumbnail_body E net u rq = (Inl e, rq') \<longrightarrow>
      fetchVimeoThumbnail E net u rq = (Inr None, rq')) \<and>
   (\<forall>e rq'. fetchPeerTubeThumbnail_body E net u rq = (Inl e, rq') \<longrightarrow>
      fetchPeerTubeThumbnail E net u rq = (Inr None, rq'))"
proof (intro conjI allI impI)
  show "\<exists>r rq'. fetchYouTubeThumbnail net u rq = (Inr r, rq')"
    using probe_loop_returns by (auto simp: fetchYouTubeThumbnail_def split: option.splits)
  show "\<exists>r rq'. fetchVimeoThumbnail E net u rq = (Inr r, rq')"
    unfolding fetchVimeoThumbnail_def by (rule catch_null_returns)
  show "\<exists>r rq'. fetchPeerTubeThumbnail E net u rq = (Inr r, rq')"
    unfolding fetchPeerTubeThumbnail_def by (rule catch_null_returns)
  show "fetchVimeoThumbnail E net u rq = (Inr None, rq')"
    if "fetchVimeoThumbnail_body E net u rq = (Inl e, rq')" for e rq'
    using that by (simp add: fetchVimeoThumbnail_def catch_null_def)
  show "fetchPeerTubeThumbnail E net u rq = (Inr None, rq')"
    if "fetchPeerTubeThumbnail_body E net u rq = (Inl e, rq')" for e rq'
    using that by (simp add: fetchPeerTubeThumbnail_def catch_null_def)
qed

text \<open>
  C8 where the transport always rejects: the two \<open>try\<close> blocks throw after their one
  request and the fetchers return none; YouTube returns none after its three probes.
\<close>

theorem fetchers_never_throw_witness:
  "fetchYouTubeThumbnail net_down ''https://youtu.be/abc123'' [] =
     (Inr None,
      [youtube_probe ''abc123'' ''maxresdefault'', youtube_probe ''abc123'' ''hqdefault'',
       youtube_probe ''abc123'' ''mqdefault'']) \<and>
   fetchVimeoThumbnail_body demo_env net_down ''https://vimeo.com/123456'' [] =
     (Inl TransportError, [vimeo_request ''https%3A%2F%2Fvimeo.com%2F123456'']) \<and>
   fetchVimeoThumbnail demo_env net_down ''https://vimeo.com/123456'' [] =
     (Inr None, [vimeo_request ''https%3A%2F%2Fvimeo.com%2F123456'']) \<and>
   fetchPeerTubeThumbnail_body demo_env net_down ''https://pt.example.com/w/abc-1'' [] =
     (Inl TransportError, [peertube_request ''https://pt.example.com'' ''abc-1'']) \<and>
   fetchPeerTubeThumbnail demo_env net_down ''https://pt.example.com/w/abc-1'' [] =
     (Inr None, [peertube_request ''https://pt.example.com'' ''abc-1''])"
proof -
  have y: "fetchYouTubeThumbnail net_down ''https://youtu.be/abc123'' [] =
     (Inr None,
      [youtube_probe ''abc123'' ''maxresdefault'', youtube_probe ''abc123'' ''hqdefault'',
       youtube_probe ''abc123'' ''mqdefault''])"
    by (simp add: fetchYouTubeThumbnail_def extractYouTubeId_def youtube_patterns_def
        not_amp_q_slash_def thumbnails_def fetch_def net_down_def head_request_def
        youtube_probe_def)
  have v: "fetchVimeoThumbnail_body demo_env net_down ''https://vimeo.com/123456'' [] =
     (Inl TransportError, [vimeo_request ''https%3A%2F%2Fvimeo.com%2F123456''])"
    by (simp add: fetchVimeoThumbnail_body_def fetch_def net_down_def vimeo_request_def
        json_request_def demo_defs)
  have p: "fetchPeerTubeThumbnail_body demo_env net_down ''https://pt.example.com/w/abc-1'' [] =
     (Inl TransportError, [peertube_request ''https://pt.example.com'' ''abc-1''])"
    by (simp add: fetchPeerTubeThumbnail_body_def fetch_def net_down_def peertube_request_def
        json_request_def peertube_pattern_def alnum_hyphen_def demo_defs)
  show ?thesis
    using fetchers_never_throw [of net_down "''https://vimeo.com/123456''" "[]" demo_env]
      fetchers_never_throw [of net_down "''https://pt.example.com/w/abc-1''" "[]" demo_env]
      y v p
    by simp
qed

lemma or_default_falsy: "\<not> truthy_val a \<Longrightarrow> or_default a d = d"
  by (cases a) (auto simp: or_default_def)

lemma or_default_truthy: "truthy x \<Longrightarrow> or_default (Some x) d = x"
  by (simp add: or_default_def)

text \<open>
  Claim C7. When the oEmbed response is ok and its body has a truthy \<open>thumbnail_url\<close>,
  \<open>fetchVimeoThumbnail\<close> returns a descriptor with that value as \<open>url\<close>, platform
  \<open>vimeo\<close> and \<open>cached = False\<close>. A width or height that is absent or falsy, the number
  zero included, is replaced by 640 or 360; a truthy one is kept.
\<close>

theorem fetchVimeoThumbnail_defaults:
  assumes enc: "encodeURIComponent E u = Inr enc"
    and res: "net rq (vimeo_request enc) = Inr (Response True (Inr data))"
    and turl: "get_prop data ''thumbnail_url'' = Inr (Some t)" "truthy t"
    and w: "get_prop data ''thumbnail_width'' = Inr w"
    and h: "get_prop data ''thumbnail_height'' = Inr h"
  shows "\<exists>r. fetchVimeoThumbnail E net u rq = (Inr (Some r), rq @ [vimeo_request enc]) \<and>
           url r = t \<and> platform r = vimeo \<and> cached r = False \<and>
           (\<not> truthy_val w \<longrightarrow> width r = JNum (Finite 640)) \<and>
           (\<not> truthy_val h \<longrightarrow> height r = JNum (Finite 360)) \<and>
           (w = Some (JNum (Finite 0)) \<longrightarrow> width r = JNum (Finite 640)) \<and>
           (h = Some (JNum (Finite 0)) \<longrightarrow> height r = JNum (Finite 360)) \<and>
           (\<forall>x. w = Some x \<and> truthy x \<longrightarrow> width r = x) \<and>
           (\<forall>x. h = Some x \<and> truthy x \<longrightarrow> height r = x)"
proof -
  let ?r = "\<lparr>url = t, width = or_default w (JNum (Finite 640)),
              height = or_default h (JNum (Finite 360)), platform = vimeo, cached = False\<rparr>"
  have "fetchVimeoThumbnail_body E net u rq = (Inr (Some ?r), rq @ [vimeo_request enc])"
    using assms by (simp add: fetchVimeoThumbnail_body_def fetch_def vimeo_request_def
        json_request_def)
  then have "fetchVimeoThumbnail E net u rq = (Inr (Some ?r), rq @ [vimeo_request enc])"
    by (simp add: fetchVimeoThumbnail_def catch_null_def)
  moreover have "\<not> truthy_val w \<longrightarrow> width ?r = JNum (Finite 640)"
    by (simp add: or_default_falsy)
  moreover have "\<not> truthy_val h \<longrightarrow> height ?r = JNum (Finite 360)"
    by (simp add: or_default_falsy)
  moreover have "w = Some (JNum (Finite 0)) \<longrightarrow> width ?r = JNum (Finite 640)"
    by (simp add: or_default_def)
  moreover have "h = Some (JNum (Finite 0)) \<longrightarrow> height ?r = JNum (Finite 360)"
    by (simp add: or_default_def)
  moreover have "\<forall>x. w = Some x \<and> truthy x \<longrightarrow> width ?r = x"
    by (simp add: or_default_truthy)
  moreover have "\<forall>x. h = Some x \<and> truthy x \<longrightarrow> height ?r = x"
    by (simp add: or_default_truthy)
  ultimately show ?thesis by simp
qed

text \<open>C7 on a body with a zero width and no height.\<close>

theorem fetchVimeoThumbnail_defaults_witness:
  "fetchVimeoThumbnail demo_env
     (net_json (JObj [(''thumbnail_url'', JStr ''X''), (''thumbnail_width'', JNum (Finite 0))]))
     ''https://vimeo.com/123456'' [] =
   (Inr (Some \<lparr>url = JStr ''X'', width = JNum (Finite 640), height = JNum (Finite 360),
               platform = vimeo, cached = False\<rparr>),
    [vimeo_request ''https%3A%2F%2Fvimeo.com%2F123456''])"
proof -
  let ?data = "JObj [(''thumbnail_url'', JStr ''X''), (''thumbnail_width'', JNum (Finite 0))]"
  have enc: "encodeURIComponent demo_env ''https://vimeo.com/123456'' =
      Inr ''https%3A%2F%2Fvimeo.com%2F123456''"
    by (simp add: demo_defs)
  have res: "net_json ?data [] (vimeo_request ''https%3A%2F%2Fvimeo.com%2F123456'') =
      Inr (Response True (Inr ?data))"
    by (simp add: net_json_def)
  have t: "get_prop ?data ''thumbnail_url'' = Inr (Some (JStr ''X''))" "truthy (JStr ''X'')"
    by simp_all
  have w: "get_prop ?data ''thumbnail_width'' = Inr (Some (JNum (Finite 0)))" by simp
  have h: "get_prop ?data ''thumbnail_height'' = Inr None" by simp
  from fetchVimeoThumbnail_defaults [where net = "net_json ?data" and rq = "[]", OF enc res t w h]
  obtain r where r: "fetchVimeoThumbnail demo_env (net_json ?data) ''https://vimeo.com/123456'' [] =
        (Inr (Some r), [] @ [vimeo_request ''https%3A%2F%2Fvimeo.com%2F123456''])"
      "url r = JStr ''X''" "platform r = vimeo" "cached r = False"
      "width r = JNum (Finite 640)" "height r = JNum (Finite 360)"
    by auto
  then have "r = \<lparr>url = JStr ''X'', width = JNum (Finite 640), height = JNum (Finite 360),
               platform = vimeo, cached = False\<rparr>"
    by (cases r) simp
  then show ?thesis using r(1) by simp
qed

text \<open>
  Claim C10. In \<open>fetchPeerTubeThumbnail\<close> a \<open>thumbnailPath\<close> that is present and not
  \<open>null\<close> is the one selected, whatever \<open>previewPath\<close> is: an empty string (like every
  falsy value) is kept by \<open>??\<close> and rejected by the falsiness check, so the result is none
  even beside a usable \<open>previewPath\<close>; a non-empty string is appended to the origin; any
  other truthy value is appended after conversion, or gives none if the conversion
  throws. \<open>previewPath\<close> is used, in the same way, only when \<open>thumbnailPath\<close> is absent
  or \<open>null\<close>.
\<close>

theorem fetchPeerTubeThumbnail_thumbnailPath_empty:
  assumes u: "new_URL E u = Inr urlObj"
    and m: "regex_match peertube_pattern alnum_hyphen u = Some uuid"
    and res: "net rq (peertube_request (origin urlObj) uuid) = Inr (Response True (Inr data))"
    and tp: "get_prop data ''thumbnailPath'' = Inr a"
    and pp: "get_prop data ''previewPath'' = Inr b"
  shows "(a = Some (JStr []) \<longrightarrow>
            fetchPeerTubeThumbnail E net u rq =
              (Inr None, rq @ [peertube_request (origin urlObj) uuid])) \<and>
         (\<forall>v. a = Some v \<and> v \<noteq> JNull \<and> \<not> truthy v \<longrightarrow>
            fetchPeerTubeThumbnail E net u rq =
              (Inr None, rq @ [peertube_request (origin urlObj) uuid])) \<and>
         (\<forall>s. a = Some (JStr s) \<and> s \<noteq> [] \<longrightarrow>
            fetchPeerTubeThumbnail E net u rq =
              (Inr (Some \<lparr>url = JStr (origin urlObj @ s),
                          width = JNum (Finite 560), height = JNum (Finite 315),
                          platform = peertube, cached = False\<rparr>),
               rq @ [peertube_request (origin urlObj) uuid])) \<and>
         (\<forall>v. a = Some v \<and> truthy v \<longrightarrow>
            fetchPeerTubeThumbnail E net u rq =
              (case template E v of
                 Inl e \<Rightarrow> Inr None
               | Inr path \<Rightarrow>
                   Inr (Some \<lparr>url = JStr (origin urlObj @ path),
                              width = JNum (Finite 560), height = JNum (Finite 315),
                              platform = peertube, cached = False\<rparr>),
               rq @ [peertube_request (origin urlObj) uuid])) \<and>
         (\<forall>p. (a = None \<or> a = Some JNull) \<and> b = Some p \<and> truthy p \<longrightarrow>
            fetchPeerTubeThumbnail E net u rq =
              (case template E p of
                 Inl e \<Rightarrow> Inr None
               | Inr path \<Rightarrow>
                   Inr (Some \<lparr>url = JStr (origin urlObj @ path),
                              width = JNum (Finite 560), height = JNum (Finite 315),
                              platform = peertube, cached = False\<rparr>),
               rq @ [peertube_request (origin urlObj) uuid])) \<and>
         ((a = None \<or> a = Some JNull) \<and> \<not> truthy_val b \<longrightarrow>
            fetchPeerTubeThumbnail E net u rq =
              (Inr None, rq @ [peertube_request (origin urlObj) uuid]))"
proof -
  let ?req = "peertube_request (origin urlObj) uuid"
  let ?build = "\<lambda>v. (case template E v of
                 Inl e \<Rightarrow> Inr None
               | Inr path \<Rightarrow>
                   Inr (Some \<lparr>url = JStr (origin urlObj @ path),
                              width = JNum (Finite 560), height = JNum (Finite 315),
                              platform = peertube, cached = False\<rparr>),
               rq @ [?req])"
  have ne: "uuid \<noteq> []" using regex_match_Some [OF m] by simp
  have body: "fetchPeerTubeThumbnail E net u rq =
      (case nullish_or a b of
         None \<Rightarrow> (Inr None, rq @ [?req])
       | Some thumbnailPath \<Rightarrow>
           if \<not> truthy thumbnailPath then (Inr None, rq @ [?req]) else ?build thumbnailPath)"
    using u m res tp pp ne
    by (simp add: fetchPeerTubeThumbnail_def fetchPeerTubeThumbnail_body_def fetch_def
        peertube_request_def json_request_def catch_null_def Let_def
        split: option.splits sum.splits)
  have keep: "nullish_or (Some v) b = Some v" if "v \<noteq> JNull" for v
    using that by (cases v) simp_all
  have fall: "nullish_or a b = b" if "a = None \<or> a = Some JNull"
    using that by auto
  have t: "v \<noteq> JNull" if "truthy v" for v
    using that by auto
  have c1: "a = Some (JStr []) \<longrightarrow> fetchPeerTubeThumbnail E net u rq = (Inr None, rq @ [?req])"
    unfolding body by (simp add: keep)
  have c2: "\<forall>v. a = Some v \<and> v \<noteq> JNull \<and> \<not> truthy v \<longrightarrow>
      fetchPeerTubeThumbnail E net u rq = (Inr None, rq @ [?req])"
    unfolding body by (simp add: keep)
  have c4: "\<forall>v. a = Some v \<and> truthy v \<longrightarrow> fetchPeerTubeThumbnail E net u rq = ?build v"
    unfolding body using t by (auto simp: keep)
  have c3: "\<forall>s. a = Some (JStr s) \<and> s \<noteq> [] \<longrightarrow>
      fetchPeerTubeThumbnail E net u rq =
        (Inr (Some \<lparr>url = JStr (origin urlObj @ s),
                    width = JNum (Finite 560), height = JNum (Finite 315),
                    platform = peertube, cached = False\<rparr>), rq @ [?req])"
    unfolding body by (simp add: keep)
  have c5: "\<forall>p. (a = None \<or> a = Some JNull) \<and> b = Some p \<and> truthy p \<longrightarrow>
      fetchPeerTubeThumbnail E net u rq = ?build p"
    unfolding body using fall by auto
  have c6: "(a = None \<or> a = Some JNull) \<and> \<not> truthy_val b \<longrightarrow>
      fetchPeerTubeThumbnail E net u rq = (Inr None, rq @ [?req])"
    unfolding body using fall by (cases b) auto
  from c1 c2 c3 c4 c5 c6 show ?thesis by (intro conjI)
qed

text \<open>
  C10 on three bodies: an empty \<open>thumbnailPath\<close> beside a usable \<open>previewPath\<close> gives
  none; so does a \<open>thumbnailPath\<close> whose conversion throws; an absent \<open>thumbnailPath\<close>
  lets \<open>previewPath\<close> through.
\<close>

theorem fetchPeerTubeThumbnail_thumbnailPath_empty_witness:
  "fetchPeerTubeThumbnail demo_env
     (net_json (JObj [(''thumbnailPath'', JStr []), (''previewPath'', JStr ''/p.jpg'')]))
     ''https://pt.example.com/w/abc-1'' [] =
   (Inr None, [peertube_request ''https://pt.example.com'' ''abc-1'']) \<and>
   fetchPeerTubeThumbnail demo_env
     (net_json (JObj [(''thumbnailPath'', JObj [(''toString'', JNum (Finite 0))]),
                      (''previewPath'', JStr ''/p.jpg'')]))
     ''https://pt.example.com/w/abc-1'' [] =
   (Inr None, [peertube_request ''https://pt.example.com'' ''abc-1'']) \<and>
   fetchPeerTubeThumbnail demo_env
     (net_json (JObj [(''previewPath'', JStr ''/p.jpg'')]))
     ''https://pt.example.com/w/abc-1'' [] =
   (Inr (Some \<lparr>url = JStr ''https://pt.example.com/p.jpg'', width = JNum (Finite 560),
               height = JNum (Finite 315), platform = peertube, cached = False\<rparr>),
    [peertube_request ''https://pt.example.com'' ''abc-1''])"
proof -
  let ?d1 = "JObj [(''thumbnailPath'', JStr []), (''previewPath'', JStr ''/p.jpg'')]"
  let ?d2 = "JObj [(''thumbnailPath'', JObj [(''toString'', JNum (Finite 0))]),
                   (''previewPath'', JStr ''/p.jpg'')]"
  let ?d3 = "JObj [(''previewPath'', JStr ''/p.jpg'')]"
  let ?o = "\<lparr>hostname = ''pt.example.com'', origin = ''https://pt.example.com''\<rparr>"
  have u: "new_URL demo_env ''https://pt.example.com/w/abc-1'' = Inr ?o"
    by (simp add: demo_defs)
  have m: "regex_match peertube_pattern alnum_hyphen ''https://pt.example.com/w/abc-1'' = Some ''abc-1''"
    by (simp add: peertube_pattern_def alnum_hyphen_def)
  have res: "net_json d [] (peertube_request (origin ?o) ''abc-1'') = Inr (Response True (Inr d))"
    for d by (simp add: net_json_def)
  have pp: "get_prop ?d1 ''previewPath'' = Inr (Some (JStr ''/p.jpg''))"
    "get_prop ?d2 ''previewPath'' = Inr (Some (JStr ''/p.jpg''))"
    "get_prop ?d3 ''previewPath'' = Inr (Some (JStr ''/p.jpg''))"
    by simp_all
  have tp1: "get_prop ?d1 ''thumbnailPath'' = Inr (Some (JStr []))" by simp
  have tp2: "get_prop ?d2 ''thumbnailPath'' = Inr (Some (JObj [(''toString'', JNum (Finite 0))]))"
    by simp
  have tp3: "get_prop ?d3 ''thumbnailPath'' = Inr None" by simp
  have throws: "template demo_env (JObj [(''toString'', JNum (Finite 0))]) = Inl TypeError"
    by (simp add: demo_env_def)
  have e1: "fetchPeerTubeThumbnail demo_env (net_json ?d1) ''https://pt.example.com/w/abc-1'' [] =
      (Inr None, [peertube_request ''https://pt.example.com'' ''abc-1''])"
    using fetchPeerTubeThumbnail_thumbnailPath_empty
      [where net = "net_json ?d1" and rq = "[]", OF u m res tp1 pp(1)]
    by simp
  have e2: "fetchPeerTubeThumbnail demo_env (net_json ?d2) ''https://pt.example.com/w/abc-1'' [] =
      (Inr None, [peertube_request ''https://pt.example.com'' ''abc-1''])"
    using fetchPeerTubeThumbnail_thumbnailPath_empty
      [where net = "net_json ?d2" and rq = "[]", OF u m res tp2 pp(2)] throws
    by simp
  have e3: "fetchPeerTubeThumbnail demo_env (net_json ?d3) ''https://pt.example.com/w/abc-1'' [] =
      (Inr (Some \<lparr>url = JStr ''https://pt.example.com/p.jpg'', width = JNum (Finite 560),
               height = JNum (Finite 315), platform = peertube, cached = False\<rparr>),
       [peertube_request ''https://pt.example.com'' ''abc-1''])"
    using fetchPeerTubeThumbnail_thumbnailPath_empty
      [where net = "net_json ?d3" and rq = "[]", OF u m res tp3 pp(3)]
    by simp
  from e1 e2 e3 show ?thesis by (intro conjI)
qed

section \<open>Platform detection and the PeerTube identifier\<close>

text \<open>
  Claim C2. \<open>detectPlatform\<close> returns on every input and never throws. If the input does
  not parse as a URL the result is none. Otherwise the first rule that applies decides:
  \<open>youtube\<close> if the lower-cased hostname contains \<open>youtube.com\<close> or \<open>youtu.be\<close>; else
  \<open>vimeo\<close> if it contains \<open>vimeo.com\<close>; else \<open>peertube\<close> if the raw input string contains
  \<open>/videos/watch/\<close> or \<open>/w/\<close>; else none. "Contains" is \<open>sublist\<close>: the needle occurs
  as a contiguous run.
\<close>

theorem detectPlatform_algorithm:
  "(\<exists>p. detectPlatform E u = Inr p) \<and>
   (\<forall>e. new_URL E u = Inl e \<longrightarrow> detectPlatform E u = Inr None) \<and>
   (\<forall>urlObj host. new_URL E u = Inr urlObj \<and> host = toLowerCase (hostname urlObj) \<longrightarrow>
      detectPlatform E u =
        Inr (if sublist ''youtube.com'' host \<or> sublist ''youtu.be'' host then Some youtube
             else if sublist ''vimeo.com'' host then Some vimeo
             else if sublist ''/videos/watch/'' u \<or> sublist ''/w/'' u then Some peertube
             else None))"
proof (intro conjI allI impI)
  show "\<exists>p. detectPlatform E u = Inr p"
    by (simp add: detectPlatform_def split: sum.splits)
next
  fix e assume "new_URL E u = Inl e"
  then show "detectPlatform E u = Inr None"
    by (simp add: detectPlatform_def detectPlatform_body_def)
next
  fix urlObj host
  assume "new_URL E u = Inr urlObj \<and> host = toLowerCase (hostname urlObj)"
  then show "detectPlatform E u =
        Inr (if sublist ''youtube.com'' host \<or> sublist ''youtu.be'' host then Some youtube
             else if sublist ''vimeo.com'' host then Some vimeo
             else if sublist ''/videos/watch/'' u \<or> sublist ''/w/'' u then Some peertube
             else None)"
    by (simp add: detectPlatform_def detectPlatform_body_def Let_def includes_str_sublist)
qed

text \<open>The five branches of C2 on concrete inputs.\<close>

theorem detectPlatform_algorithm_witness:
  "detectPlatform demo_env ''not a url'' = Inr None \<and>
   detectPlatform demo_env ''https://www.YouTube.com/watch?v=abc123'' = Inr (Some youtube) \<and>
   detectPlatform demo_env ''https://player.vimeo.com/w/123456'' = Inr (Some vimeo) \<and>
   detectPlatform demo_env ''https://pt.example.com/w/abc-1'' = Inr (Some peertube) \<and>
   detectPlatform demo_env ''https://example.com/video'' = Inr None"
proof -
  have p: "new_URL demo_env ''not a url'' = Inl TypeError"
    "new_URL demo_env ''https://www.YouTube.com/watch?v=abc123'' =
       Inr \<lparr>hostname = ''www.youtube.com'', origin = ''https://www.youtube.com''\<rparr>"
    "new_URL demo_env ''https://player.vimeo.com/w/123456'' =
       Inr \<lparr>hostname = ''player.vimeo.com'', origin = ''https://player.vimeo.com''\<rparr>"
    "new_URL demo_env ''https://pt.example.com/w/abc-1'' =
       Inr \<lparr>hostname = ''pt.example.com'', origin = ''https://pt.example.com''\<rparr>"
    "new_URL demo_env ''https://example.com/video'' =
       Inr \<lparr>hostname = ''example.com'', origin = ''https://example.com''\<rparr>"
    by (simp_all add: demo_defs)
  show ?thesis
    using detectPlatform_algorithm [of demo_env "''not a url''"]
      detectPlatform_algorithm [of demo_env "''https://www.YouTube.com/watch?v=abc123''"]
      detectPlatform_algorithm [of demo_env "''https://player.vimeo.com/w/123456''"]
      detectPlatform_algorithm [of demo_env "''https://pt.example.com/w/abc-1''"]
      detectPlatform_algorithm [of demo_env "''https://example.com/video''"]
    by (simp add: p toLowerCase_def lower_char_def flip: includes_str_sublist)
qed

text \<open>
  Claim C4 says that an identifier longer than 36 characters makes
  \<open>fetchPeerTubeThumbnail\<close> return none without a request. The pattern
  \<open>[a-zA-Z0-9-]+\<close> has no upper bound: with an identifier of 37 characters the request
  is issued and a result comes back.
\<close>

theorem fetchPeerTubeThumbnail_long_id_counterexample:
  "length ''aaaaaaaaaaaaaaaaaaaaaaaaaaaaaaaaaaaaa'' = 37 \<and>
   fetchPeerTubeThumbnail demo_env (net_json (JObj [(''thumbnailPath'', JStr ''/t.jpg'')]))
     ''https://pt.example.com/w/aaaaaaaaaaaaaaaaaaaaaaaaaaaaaaaaaaaaa'' [] =
   (Inr (Some \<lparr>url = JStr ''https://pt.example.com/t.jpg'', width = JNum (Finite 560),
               height = JNum (Finite 315), platform = peertube, cached = False\<rparr>),
    [peertube_request ''https://pt.example.com'' ''aaaaaaaaaaaaaaaaaaaaaaaaaaaaaaaaaaaaa''])"
  by (simp add: fetchPeerTubeThumbnail_def fetchPeerTubeThumbnail_body_def catch_null_def
      fetch_def net_json_def peertube_request_def json_request_def peertube_pattern_def
      alnum_hyphen_def demo_defs)

text \<open>
  Claim C4, amended. \<open>fetchPeerTubeThumbnail\<close> returns none without a request when the
  URL does not parse or when the input has no identifier, that is, when the raw input
  string has no \<open>/videos/watch/\<close> or \<open>/w/\<close> followed by a letter, digit or hyphen. The
  identifier the pattern extracts is exactly \<open>peertube_id\<close>: the whole run of letters,
  digits and hyphens, of any length, after the leftmost such occurrence, wherever in
  the string it is. When the URL parses and has an identifier, exactly one request is
  issued: a \<open>GET\<close> of \<open>origin/api/v1/videos/ID\<close> with \<open>Accept: application/json\<close>. In
  particular every non-empty \<open>ID\<close> of letters, digits and hyphens, however long, is
  requested when it comes as \<open>https://pt.example.com/w/ID\<close>.
\<close>

theorem fetchPeerTubeThumbnail_requires:
  "(\<forall>e. new_URL E u = Inl e \<longrightarrow> fetchPeerTubeThumbnail E net u rq = (Inr None, rq)) \<and>
   (\<not> (\<exists>uuid. peertube_id u uuid) \<longrightarrow> fetchPeerTubeThumbnail E net u rq = (Inr None, rq)) \<and>
   (\<not> (\<exists>uuid. peertube_id u uuid) \<longleftrightarrow>
      \<not> (\<exists>pre c post. alnum_hyphen c \<and>
            (u = pre @ ''/videos/watch/'' @ c # post \<or> u = pre @ ''/w/'' @ c # post))) \<and>
   (\<forall>uuid. regex_match peertube_pattern alnum_hyphen u = Some uuid \<longleftrightarrow> peertube_id u uuid) \<and>
   (\<forall>urlObj uuid.
      new_URL E u = Inr urlObj \<and> peertube_id u uuid \<longrightarrow>
      (\<exists>r. fetchPeerTubeThumbnail E net u rq =
             (Inr r,
              rq @ [\<lparr>req_method = GET, req_url = origin urlObj @ ''/api/v1/videos/'' @ uuid,
                     req_accept = Some ''application/json''\<rparr>]))) \<and>
   (\<forall>urlObj ident.
      ident \<noteq> [] \<and> (\<forall>c \<in> set ident. alnum_hyphen c) \<and>
      new_URL E (''https://pt.example.com/w/'' @ ident) = Inr urlObj \<longrightarrow>
      (\<exists>r. fetchPeerTubeThumbnail E net (''https://pt.example.com/w/'' @ ident) rq =
             (Inr r,
              rq @ [\<lparr>req_method = GET, req_url = origin urlObj @ ''/api/v1/videos/'' @ ident,
                     req_accept = Some ''application/json''\<rparr>])))"
proof -
  have none_iff: "regex_match peertube_pattern alnum_hyphen w = None \<longleftrightarrow>
      \<not> (\<exists>uuid. peertube_id w uuid)" for w
  proof (cases "regex_match peertube_pattern alnum_hyphen w")
    case None
    then show ?thesis using regex_match_peertube_id [of w] by simp
  next
    case (Some g)
    then show ?thesis using regex_match_peertube_id [of w g] by auto
  qed
  have request: "\<exists>r. fetchPeerTubeThumbnail E net w rq =
        (Inr r, rq @ [\<lparr>req_method = GET, req_url = origin urlObj @ ''/api/v1/videos/'' @ g,
                       req_accept = Some ''application/json''\<rparr>])"
    if p: "new_URL E w = Inr urlObj" and m: "regex_match peertube_pattern alnum_hyphen w = Some g"
    for w urlObj g
  proof -
    have ne: "g \<noteq> []" using regex_match_Some [OF m] by simp
    have "\<exists>r. fetchPeerTubeThumbnail_body E net w rq =
          (r, rq @ [\<lparr>req_method = GET, req_url = origin urlObj @ ''/api/v1/videos/'' @ g,
                      req_accept = Some ''application/json''\<rparr>])"
      using p m ne
      by (auto simp: fetchPeerTubeThumbnail_body_def fetch_def json_request_def Let_def
          split: sum.splits option.splits)
    then show ?thesis
      by (auto simp: fetchPeerTubeThumbnail_def catch_null_def split: sum.splits)
  qed
  have c1: "\<forall>e. new_URL E u = Inl e \<longrightarrow> fetchPeerTubeThumbnail E net u rq = (Inr None, rq)"
    by (simp add: fetchPeerTubeThumbnail_def fetchPeerTubeThumbnail_body_def catch_null_def)
  have c2: "\<not> (\<exists>uuid. peertube_id u uuid) \<longrightarrow> fetchPeerTubeThumbnail E net u rq = (Inr None, rq)"
  proof
    assume "\<not> (\<exists>uuid. peertube_id u uuid)"
    then have "regex_match peertube_pattern alnum_hyphen u = None"
      using none_iff [of u] by blast
    then show "fetchPeerTubeThumbnail E net u rq = (Inr None, rq)"
      by (simp add: fetchPeerTubeThumbnail_def fetchPeerTubeThumbnail_body_def catch_null_def
          split: sum.splits)
  qed
  have c3: "\<not> (\<exists>uuid. peertube_id u uuid) \<longleftrightarrow>
      \<not> (\<exists>pre c post. alnum_hyphen c \<and>
            (u = pre @ ''/videos/watch/'' @ c # post \<or> u = pre @ ''/w/'' @ c # post))"
  proof -
    have "regex_match peertube_pattern alnum_hyphen u = None \<longleftrightarrow>
        \<not> (\<exists>pre c post. alnum_hyphen c \<and>
            (u = pre @ ''/videos/watch/'' @ c # post \<or> u = pre @ ''/w/'' @ c # post))"
      unfolding regex_match_None bex_peertube_pattern by blast
    then show ?thesis unfolding none_iff [of u] .
  qed
  have c4: "\<forall>uuid. regex_match peertube_pattern alnum_hyphen u = Some uuid \<longleftrightarrow> peertube_id u uuid"
    by (simp add: regex_match_peertube_id)
  have c5: "\<forall>urlObj uuid. new_URL E u = Inr urlObj \<and> peertube_id u uuid \<longrightarrow>
      (\<exists>r. fetchPeerTubeThumbnail E net u rq =
             (Inr r,
              rq @ [\<lparr>req_method = GET, req_url = origin urlObj @ ''/api/v1/videos/'' @ uuid,
                     req_accept = Some ''application/json''\<rparr>]))"
    using request regex_match_peertube_id by blast
  have c6: "\<forall>urlObj ident.
      ident \<noteq> [] \<and> (\<forall>c \<in> set ident. alnum_hyphen c) \<and>
      new_URL E (''https://pt.example.com/w/'' @ ident) = Inr urlObj \<longrightarrow>
      (\<exists>r. fetchPeerTubeThumbnail E net (''https://pt.example.com/w/'' @ ident) rq =
             (Inr r,
              rq @ [\<lparr>req_method = GET, req_url = origin urlObj @ ''/api/v1/videos/'' @ ident,
                     req_accept = Some ''application/json''\<rparr>]))"
    using request regex_match_w_any_length by blast
  from c1 c2 c3 c4 c5 c6 show ?thesis by (intro conjI)
qed

text \<open>
  Amended C4 on inputs: an unparsable URL; no identifier; an identifier in the query
  string; an identifier of 45 characters.
\<close>

theorem fetchPeerTubeThumbnail_requires_witness:
  "fetchPeerTubeThumbnail demo_env net_down ''not a url/w/abc'' [] = (Inr None, []) \<and>
   fetchPeerTubeThumbnail demo_env net_down ''https://pt.example.com/w/'' [] = (Inr None, []) \<and>
   peertube_id ''https://pt.example.com/about?next=/w/abc'' ''abc'' \<and>
   fetchPeerTubeThumbnail demo_env net_down ''https://pt.example.com/about?next=/w/abc'' [] =
     (Inr None,
      [\<lparr>req_method = GET, req_url = ''https://pt.example.com/api/v1/videos/abc'',
        req_accept = Some ''application/json''\<rparr>]) \<and>
   fetchPeerTubeThumbnail demo_env net_down
       ''https://pt.example.com/w/0123456789-0123456789-0123456789-0123456789-a'' [] =
     (Inr None,
      [\<lparr>req_method = GET,
        req_url =
          ''https://pt.example.com/api/v1/videos/0123456789-0123456789-0123456789-0123456789-a'',
        req_accept = Some ''application/json''\<rparr>])"
proof -
  let ?o = "\<lparr>hostname = ''pt.example.com'', origin = ''https://pt.example.com''\<rparr>"
  let ?long = "''0123456789-0123456789-0123456789-0123456789-a''"
  have p: "new_URL demo_env ''not a url/w/abc'' = Inl TypeError"
    "new_URL demo_env ''https://pt.example.com/about?next=/w/abc'' = Inr ?o"
    "new_URL demo_env (''https://pt.example.com/w/'' @ ?long) = Inr ?o"
    by (simp_all add: demo_defs)
  note id_iff = fetchPeerTubeThumbnail_requires
      [of demo_env _ net_down "[]", THEN conjunct2, THEN conjunct2, THEN conjunct2,
       THEN conjunct1, rule_format]
  have m0: "regex_match peertube_pattern alnum_hyphen ''https://pt.example.com/w/'' = None"
    by (simp add: peertube_pattern_def alnum_hyphen_def)
  have no: "\<not> (\<exists>uuid. peertube_id ''https://pt.example.com/w/'' uuid)"
  proof
    assume "\<exists>uuid. peertube_id ''https://pt.example.com/w/'' uuid"
    then obtain uuid where "peertube_id ''https://pt.example.com/w/'' uuid" by (elim exE)
    then have "regex_match peertube_pattern alnum_hyphen ''https://pt.example.com/w/'' = Some uuid"
      by (rule id_iff [THEN iffD2])
    then show False unfolding m0 by simp
  qed
  have "regex_match peertube_pattern alnum_hyphen ''https://pt.example.com/about?next=/w/abc'' =
      Some ''abc''"
    by (simp add: peertube_pattern_def alnum_hyphen_def)
  then have yes: "peertube_id ''https://pt.example.com/about?next=/w/abc'' ''abc''"
    by (rule id_iff [THEN iffD1])
  have long: "?long \<noteq> [] \<and> (\<forall>c \<in> set ?long. alnum_hyphen c)"
    by (simp add: alnum_hyphen_def)
  have e1: "fetchPeerTubeThumbnail demo_env net_down ''not a url/w/abc'' [] = (Inr None, [])"
    using fetchPeerTubeThumbnail_requires [of demo_env "''not a url/w/abc''" net_down "[]"] p(1)
    by simp
  have e2: "fetchPeerTubeThumbnail demo_env net_down ''https://pt.example.com/w/'' [] = (Inr None, [])"
    using fetchPeerTubeThumbnail_requires [of demo_env "''https://pt.example.com/w/''" net_down "[]"] no
    by simp
  have down: "r = None"
    if "fetchPeerTubeThumbnail demo_env net_down w [] = (Inr r, [q])"
      "fetchPeerTubeThumbnail_body demo_env net_down w [] = (Inl TransportError, [q])" for w r q
    using that by (simp add: fetchPeerTubeThumbnail_def catch_null_def)
  have b3: "fetchPeerTubeThumbnail_body demo_env net_down ''https://pt.example.com/about?next=/w/abc'' [] =
      (Inl TransportError,
       [\<lparr>req_method = GET, req_url = ''https://pt.example.com/api/v1/videos/abc'',
         req_accept = Some ''application/json''\<rparr>])"
    by (simp add: fetchPeerTubeThumbnail_body_def fetch_def net_down_def json_request_def
        peertube_pattern_def alnum_hyphen_def demo_defs)
  have b4: "fetchPeerTubeThumbnail_body demo_env net_down (''https://pt.example.com/w/'' @ ?long) [] =
      (Inl TransportError,
       [\<lparr>req_method = GET,
         req_url = ''https://pt.example.com/api/v1/videos/'' @ ?long,
         req_accept = Some ''application/json''\<rparr>])"
    by (simp add: fetchPeerTubeThumbnail_body_def fetch_def net_down_def json_request_def
        peertube_pattern_def alnum_hyphen_def demo_defs)
  have e3: "fetchPeerTubeThumbnail demo_env net_down ''https://pt.example.com/about?next=/w/abc'' [] =
     (Inr None,
      [\<lparr>req_method = GET, req_url = ''https://pt.example.com/api/v1/videos/abc'',
        req_accept = Some ''application/json''\<rparr>])"
    using fetchPeerTubeThumbnail_requires
      [of demo_env "''https://pt.example.com/about?next=/w/abc''" net_down "[]",
       THEN conjunct2, THEN conjunct2, THEN conjunct2, THEN conjunct2, THEN conjunct1,
       rule_format, of ?o "''abc''"] p(2) yes down [OF _ b3]
    by auto
  have e4: "fetchPeerTubeThumbnail demo_env net_down (''https://pt.example.com/w/'' @ ?long) [] =
     (Inr None,
      [\<lparr>req_method = GET, req_url = ''https://pt.example.com/api/v1/videos/'' @ ?long,
        req_accept = Some ''application/json''\<rparr>])"
    using fetchPeerTubeThumbnail_requires
      [of demo_env u net_down "[]",
       THEN conjunct2, THEN conjunct2, THEN conjunct2, THEN conjunct2, THEN conjunct2,
       rule_format, of ?long ?o] p(3) long down [OF _ b4]
    by auto
  from e1 e2 yes e3 e4 show ?thesis by simp
qed

section \<open>Properties of the cache\<close>

subsection \<open>Pruning\<close>

text \<open>
  The loop removes every entry whose key belongs to an expired entry of the list it runs
  over and counts the expired entries; with distinct keys these are the expired entries
  themselves.
\<close>

lemma prune_loop_eq:
  "prune_loop now es c removed =
     (filter (\<lambda>(k, e). k \<notin> fst ` {(k', e') \<in> set es. now - timestamp e' \<ge> CACHE_TTL}) c,
      removed + length (filter (\<lambda>(k, e). now - timestamp e \<ge> CACHE_TTL) es))"
proof (induction es arbitrary: c removed)
  case Nil
  then show ?case by simp
next
  case (Cons p es)
  obtain key entry where p: "p = (key, entry)" by (cases p)
  show ?case
  proof (cases "now - timestamp entry \<ge> CACHE_TTL")
    case True
    have "filter (\<lambda>(k, e). k \<notin> fst ` {(k', e') \<in> set es. now - timestamp e' \<ge> CACHE_TTL})
            (AList.delete key c) =
          filter (\<lambda>(k, e). k \<notin> fst ` {(k', e') \<in> set (p # es). now - timestamp e' \<ge> CACHE_TTL}) c"
      using True p by (induction c) (auto simp: image_iff)
    then show ?thesis using True p Cons.IH by simp
  next
    case False
    have "{(k', e') \<in> set (p # es). now - timestamp e' \<ge> CACHE_TTL} =
          {(k', e') \<in> set es. now - timestamp e' \<ge> CACHE_TTL}"
      using False p by auto
    then show ?thesis using False p Cons.IH by simp
  qed
qed

lemma distinct_keys_filter:
  assumes "distinct (map fst c)"
  shows "filter (\<lambda>(k, e). k \<notin> fst ` {(k', e') \<in> set c. P e'}) c = filter (\<lambda>(k, e). \<not> P e) c"
proof (rule filter_cong [OF refl])
  fix x assume x: "x \<in> set c"
  obtain k e where ke: "x = (k, e)" by (cases x)
  have "k \<in> fst ` {(k', e') \<in> set c. P e'} \<longleftrightarrow> P e"
  proof
    assume "k \<in> fst ` {(k', e') \<in> set c. P e'}"
    then obtain e' where "(k, e') \<in> set c" "P e'" by auto
    moreover have "e' = e" using assms x ke \<open>(k, e') \<in> set c\<close> by (meson eq_key_imp_eq_value)
    ultimately show "P e" by simp
  next
    assume "P e"
    then show "k \<in> fst ` {(k', e') \<in> set c. P e'}" using x ke by force
  qed
  then show "(case x of (k, e) \<Rightarrow> k \<notin> fst ` {(k', e') \<in> set c. P e'}) = (case x of (k, e) \<Rightarrow> \<not> P e)"
    using ke by simp
qed

lemma pruneExpiredCache_eq:
  assumes "distinct (map fst c)"
  shows "pruneExpiredCache now c =
     (length (filter (\<lambda>(k, e). now - timestamp e \<ge> CACHE_TTL) c),
      filter (\<lambda>(k, e). \<not> now - timestamp e \<ge> CACHE_TTL) c)"
  unfolding pruneExpiredCache_def prune_loop_eq
  using distinct_keys_filter [OF assms, of "\<lambda>e. now - timestamp e \<ge> CACHE_TTL"]
  by simp

lemma distinct_keys_filter2: "distinct (map fst c) \<Longrightarrow> distinct (map fst (filter P c))"
  by (simp add: distinct_map_filter)

text \<open>
  Claim C5. On a \<open>Map\<close> (distinct keys) \<open>pruneExpiredCache\<close> keeps exactly the entries of
  age below the TTL, in their order, and returns the number of entries of age at least
  the TTL, which is the number of entries removed. An entry whose age is exactly the TTL
  is removed. On the empty store the count is 0, and pruning again at the same instant
  removes nothing and returns 0.
\<close>

theorem pruneExpiredCache_exact:
  assumes "distinct (map fst c)"
  shows "pruneExpiredCache now c =
           (length (filter (\<lambda>(k, e). now - timestamp e \<ge> CACHE_TTL) c),
            filter (\<lambda>(k, e). now - timestamp e < CACHE_TTL) c) \<and>
         (\<forall>k e. (k, e) \<in> set c \<and> now - timestamp e = CACHE_TTL \<longrightarrow>
            (k, e) \<notin> set (snd (pruneExpiredCache now c))) \<and>
         fst (pruneExpiredCache now c) = length c - length (snd (pruneExpiredCache now c)) \<and>
         pruneExpiredCache now [] = (0, []) \<and>
         pruneExpiredCache now (snd (pruneExpiredCache now c)) =
           (0, snd (pruneExpiredCache now c))"
proof -
  let ?old = "\<lambda>(k, e). now - timestamp e \<ge> CACHE_TTL"
  let ?young = "\<lambda>(k, e). now - timestamp e < CACHE_TTL"
  have ny: "(\<lambda>(k, e). \<not> now - timestamp e \<ge> CACHE_TTL) = ?young"
    by (auto simp: fun_eq_iff)
  have eq: "pruneExpiredCache now c = (length (filter ?old c), filter ?young c)"
    using pruneExpiredCache_eq [OF assms, of now] unfolding ny .
  have d: "distinct (map fst (filter ?young c))"
    using assms by (rule distinct_keys_filter2)
  have again: "pruneExpiredCache now (filter ?young c) =
      (length (filter ?old (filter ?young c)), filter ?young (filter ?young c))"
    using pruneExpiredCache_eq [OF d, of now] unfolding ny .
  have none: "filter ?old (filter ?young c) = []"
    by (induction c) auto
  have len: "length (filter ?old c) = length c - length (filter ?young c)"
    by (induction c) (auto simp: Suc_diff_le)
  have empty: "pruneExpiredCache now [] = (0, [])"
    by (simp add: pruneExpiredCache_def)
  show ?thesis
    using eq again none len empty by auto
qed

text \<open>C5 on three entries of age TTL + 1, TTL and TTL - 1: two are removed.\<close>

theorem pruneExpiredCache_exact_witness:
  "pruneExpiredCache 86400001
     [(''a'', \<lparr>result = demo_result, timestamp = 0\<rparr>),
      (''b'', \<lparr>result = demo_result, timestamp = 1\<rparr>),
      (''c'', \<lparr>result = demo_result, timestamp = 2\<rparr>)] =
   (2, [(''c'', \<lparr>result = demo_result, timestamp = 2\<rparr>)]) \<and>
   pruneExpiredCache 86400001 [(''c'', \<lparr>result = demo_result, timestamp = 2\<rparr>)] =
   (0, [(''c'', \<lparr>result = demo_result, timestamp = 2\<rparr>)])"
proof -
  let ?c = "[(''a'', \<lparr>result = demo_result, timestamp = 0\<rparr>),
      (''b'', \<lparr>result = demo_result, timestamp = 1\<rparr>),
      (''c'', \<lparr>result = demo_result, timestamp = 2\<rparr>)]"
  have d: "distinct (map fst ?c)" by simp
  have e: "pruneExpiredCache 86400001 ?c = (2, [(''c'', \<lparr>result = demo_result, timestamp = 2\<rparr>)])"
    using pruneExpiredCache_exact [OF d, of 86400001] by (simp add: CACHE_TTL_def)
  show ?thesis
    using pruneExpiredCache_exact [OF d, of 86400001] e by simp
qed

subsection \<open>What a successful fetch looks like\<close>

lemma probe_loop_Some:
  "probe_loop net ts rq = (Inr (Some r), rq') \<Longrightarrow>
     cached r = False \<and> platform r = youtube \<and> length rq < length rq' \<and>
     length rq' \<le> length rq + length ts"
proof (induction ts arbitrary: rq)
  case Nil
  then show ?case by simp
next
  case (Cons t ts)
  show ?case
  proof (cases "probe_ok net rq (head_request (fst t))")
    case True
    then show ?thesis using Cons.prems unfolding probe_loop_step
      by (auto simp: youtube_result_def)
  next
    case False
    then have "probe_loop net ts (rq @ [head_request (fst t)]) = (Inr (Some r), rq')"
      using Cons.prems unfolding probe_loop_step by simp
    from Cons.IH [OF this] show ?thesis by simp
  qed
qed

lemma fetchYouTubeThumbnail_Some:
  "fetchYouTubeThumbnail net u rq = (Inr (Some r), rq') \<Longrightarrow>
     cached r = False \<and> platform r = youtube \<and> length rq < length rq' \<and>
     length rq' \<le> length rq + 3"
proof -
  assume a: "fetchYouTubeThumbnail net u rq = (Inr (Some r), rq')"
  then obtain v where "probe_loop net (thumbnails v) rq = (Inr (Some r), rq')"
    by (auto simp: fetchYouTubeThumbnail_def split: option.splits if_splits)
  from probe_loop_Some [OF this] show ?thesis by (simp add: thumbnails_def)
qed

lemma fetchYouTubeThumbnail_first_ok:
  assumes "extractYouTubeId u = Some v" "probe_ok net rq (youtube_probe v ''maxresdefault'')"
  shows "snd (fetchYouTubeThumbnail net u rq) = rq @ [youtube_probe v ''maxresdefault'']"
proof -
  have ne: "v \<noteq> []" using assms(1) by (rule extractYouTubeId_nonempty)
  have "fetchYouTubeThumbnail net u rq = probe_loop net (thumbnails v) rq"
    using assms(1) ne by (simp add: fetchYouTubeThumbnail_def)
  then show ?thesis
    unfolding thumbnails_def probe_loop_step
    using assms(2) by (simp add: head_request_def youtube_probe_def)
qed

lemma catch_null_Some: "catch_null x = (Inr (Some r), rq') \<Longrightarrow> x = (Inr (Some r), rq')"
  by (cases x) (auto simp: catch_null_def split: sum.splits)

lemma fetchVimeoThumbnail_Some:
  assumes "fetchVimeoThumbnail E net u rq = (Inr (Some r), rq')"
  shows "cached r = False \<and> platform r = vimeo \<and> length rq' = length rq + 1"
proof -
  have "fetchVimeoThumbnail_body E net u rq = (Inr (Some r), rq')"
    using assms unfolding fetchVimeoThumbnail_def by (rule catch_null_Some)
  then show ?thesis
    by (auto simp: fetchVimeoThumbnail_body_def fetch_def
        split: sum.splits option.splits if_splits)
qed

lemma fetchPeerTubeThumbnail_Some:
  assumes "fetchPeerTubeThumbnail E net u rq = (Inr (Some r), rq')"
  shows "cached r = False \<and> platform r = peertube \<and> length rq' = length rq + 1"
proof -
  have "fetchPeerTubeThumbnail_body E net u rq = (Inr (Some r), rq')"
    using assms unfolding fetchPeerTubeThumbnail_def by (rule catch_null_Some)
  then show ?thesis
    by (auto simp: fetchPeerTubeThumbnail_body_def fetch_def Let_def
        split: sum.splits option.splits if_splits)
qed

lemma dispatch_Some:
  assumes "dispatch E net p u rq = (Inr (Some r), rq')"
  shows "cached r = False \<and> platform r = p \<and> length rq < length rq' \<and>
         length rq' \<le> length rq + 3 \<and> (p \<noteq> youtube \<longrightarrow> length rq' = length rq + 1)"
proof (cases p)
  case youtube
  then have "fetchYouTubeThumbnail net u rq = (Inr (Some r), rq')"
    using assms by (simp add: dispatch_def)
  from fetchYouTubeThumbnail_Some [OF this] youtube show ?thesis by simp
next
  case peertube
  then have "fetchPeerTubeThumbnail E net u rq = (Inr (Some r), rq')"
    using assms by (simp add: dispatch_def)
  from fetchPeerTubeThumbnail_Some [OF this] peertube show ?thesis by simp
next
  case vimeo
  then have "fetchVimeoThumbnail E net u rq = (Inr (Some r), rq')"
    using assms by (simp add: dispatch_def)
  from fetchVimeoThumbnail_Some [OF this] vimeo show ?thesis by simp
qed

subsection \<open>Resolution\<close>

lemma map_of_delete_same: "map_of (AList.delete k c) k = None"
  by (simp add: delete_conv')

lemma getVideoThumbnail_fetch_Some:
  assumes "getVideoThumbnail_fetch E net now_write u c rq = (Inr (Some r), c1, rq1)"
  shows "cached r = False \<and> length rq < length rq1 \<and>
         length rq1 \<le> length rq + 3 \<and>
         (platform r \<noteq> youtube \<longrightarrow> length rq1 = length rq + 1) \<and>
         c1 = AList.update u \<lparr>result = r, timestamp = now_write\<rparr> c \<and>
         detectPlatform E u = Inr (Some (platform r)) \<and>
         dispatch E net (platform r) u rq = (Inr (Some r), rq1)"
proof -
  from assms obtain p where p: "detectPlatform E u = Inr (Some p)"
    by (auto simp: getVideoThumbnail_fetch_def split: sum.splits option.splits)
  with assms have d: "dispatch E net p u rq = (Inr (Some r), rq1)"
    and c1: "c1 = AList.update u \<lparr>result = r, timestamp = now_write\<rparr> c"
    by (auto simp: getVideoThumbnail_fetch_def split: sum.splits option.splits prod.splits)
  from dispatch_Some [OF d] show ?thesis using p d c1 by simp
qed

text \<open>The first call of the examples, and the state it leads to.\<close>

lemma demo_first_call:
  "getVideoThumbnail demo_env (net_json demo_body) 0 1000 demo_url [] [] =
     (Inr (Some demo_result), demo_cache, [vimeo_request ''https%3A%2F%2Fvimeo.com%2F123456''])"
  by (simp add: getVideoThumbnail_def getVideoThumbnail_fetch_def detectPlatform_def
      detectPlatform_body_def dispatch_def fetchVimeoThumbnail_def fetchVimeoThumbnail_body_def
      catch_null_def fetch_def net_json_def vimeo_request_def json_request_def or_default_def
      demo_url_def demo_body_def demo_cache_def demo_result_def demo_defs)

lemma demo_cache_reachable: "reachable demo_env demo_cache"
  by (rule reachable.resolve [OF reachable.initial demo_first_call])

text \<open>
  Claim C1 says that two successive calls perform exactly one fetch. The cache does keep
  the second call from fetching, but one resolution is not one \<open>fetch\<close>: for a YouTube
  URL whose first two probes fail, the first call issues three requests before it
  returns its result.
\<close>

theorem getVideoThumbnail_one_fetch_counterexample:
  "getVideoThumbnail demo_env net_third 0 1000 ''https://www.youtube.com/watch?v=abc123'' [] [] =
     (Inr (Some \<lparr>url = JStr ''https://img.youtube.com/vi/abc123/mqdefault.jpg'',
                 width = JNum (Finite 320), height = JNum (Finite 180),
                 platform = youtube, cached = False\<rparr>),
      [(''https://www.youtube.com/watch?v=abc123'',
        \<lparr>result = \<lparr>url = JStr ''https://img.youtube.com/vi/abc123/mqdefault.jpg'',
                    width = JNum (Finite 320), height = JNum (Finite 180),
                    platform = youtube, cached = False\<rparr>,
         timestamp = 1000\<rparr>)],
      [youtube_probe ''abc123'' ''maxresdefault'', youtube_probe ''abc123'' ''hqdefault'',
       youtube_probe ''abc123'' ''mqdefault'']) \<and>
   getVideoThumbnail demo_env net_third 1001 2000 ''https://www.youtube.com/watch?v=abc123''
       [(''https://www.youtube.com/watch?v=abc123'',
         \<lparr>result = \<lparr>url = JStr ''https://img.youtube.com/vi/abc123/mqdefault.jpg'',
                     width = JNum (Finite 320), height = JNum (Finite 180),
                     platform = youtube, cached = False\<rparr>,
          timestamp = 1000\<rparr>)]
       [youtube_probe ''abc123'' ''maxresdefault'', youtube_probe ''abc123'' ''hqdefault'',
        youtube_probe ''abc123'' ''mqdefault''] =
     (Inr (Some \<lparr>url = JStr ''https://img.youtube.com/vi/abc123/mqdefault.jpg'',
                 width = JNum (Finite 320), height = JNum (Finite 180),
                 platform = youtube, cached = True\<rparr>),
      [(''https://www.youtube.com/watch?v=abc123'',
        \<lparr>result = \<lparr>url = JStr ''https://img.youtube.com/vi/abc123/mqdefault.jpg'',
                    width = JNum (Finite 320), height = JNum (Finite 180),
                    platform = youtube, cached = False\<rparr>,
         timestamp = 1000\<rparr>)],
      [youtube_probe ''abc123'' ''maxresdefault'', youtube_probe ''abc123'' ''hqdefault'',
       youtube_probe ''abc123'' ''mqdefault''])"
  by (simp add: getVideoThumbnail_def getVideoThumbnail_fetch_def detectPlatform_def
      detectPlatform_body_def dispatch_def fetchYouTubeThumbnail_def extractYouTubeId_def
      youtube_patterns_def not_amp_q_slash_def thumbnails_def fetch_def net_third_def
      head_request_def youtube_probe_def youtube_result_def CACHE_TTL_def demo_defs)

text \<open>
  Claim C1, amended. If the store has an entry for the URL and its age is below the TTL,
  \<open>getVideoThumbnail\<close> returns the stored result with \<open>cached\<close> set to true, leaves the
  store as it is and issues no request. If the entry's age is at least the TTL, the call
  behaves as the call on the store without that entry, where the URL has no entry, so
  detection and fetch run afresh. When a call that is not served from the store returns
  a result \<open>r\<close>, then \<open>r\<close> has \<open>cached = False\<close> and its requests are those of one
  invocation of the fetcher of its platform: exactly one request for Vimeo and PeerTube,
  one to three probes for YouTube, exactly one if the first probe succeeds. A second
  call for the same URL, read before the TTL has elapsed since the first one stored its
  result, returns \<open>r\<close> with \<open>cached\<close> set to true (the same url, width, height and
  platform) and issues no request, whatever the transport would answer.
\<close>

theorem getVideoThumbnail_cache:
  "(\<forall>entry. map_of c u = Some entry \<and> now_read - timestamp entry < CACHE_TTL \<longrightarrow>
      getVideoThumbnail E net now_read now_write u c rq =
        (Inr (Some ((result entry)\<lparr>cached := True\<rparr>)), c, rq)) \<and>
   (\<forall>entry. map_of c u = Some entry \<and> now_read - timestamp entry \<ge> CACHE_TTL \<longrightarrow>
      map_of (AList.delete u c) u = None \<and>
      getVideoThumbnail E net now_read now_write u c rq =
        getVideoThumbnail E net now_read now_write u (AList.delete u c) rq \<and>
      getVideoThumbnail E net now_read now_write u c rq =
        getVideoThumbnail_fetch E net now_write u (AList.delete u c) rq) \<and>
   (\<forall>r c1 rq1 net2 now_read2 now_write2.
      (map_of c u = None \<or>
       (\<exists>entry. map_of c u = Some entry \<and> now_read - timestamp entry \<ge> CACHE_TTL)) \<and>
      getVideoThumbnail E net now_read now_write u c rq = (Inr (Some r), c1, rq1) \<and>
      now_read2 - now_write < CACHE_TTL \<longrightarrow>
        cached r = False \<and>
        dispatch E net (platform r) u rq = (Inr (Some r), rq1) \<and>
        length rq < length rq1 \<and> length rq1 \<le> length rq + 3 \<and>
        (platform r \<noteq> youtube \<longrightarrow> length rq1 = length rq + 1) \<and>
        (\<forall>v. platform r = youtube \<and> extractYouTubeId u = Some v \<and>
             probe_ok net rq (youtube_probe v ''maxresdefault'') \<longrightarrow>
             rq1 = rq @ [youtube_probe v ''maxresdefault'']) \<and>
        getVideoThumbnail E net2 now_read2 now_write2 u c1 rq1 =
          (Inr (Some (r\<lparr>cached := True\<rparr>)), c1, rq1))"
proof (intro conjI allI impI)
  fix entry
  assume "map_of c u = Some entry \<and> now_read - timestamp entry < CACHE_TTL"
  then show "getVideoThumbnail E net now_read now_write u c rq =
        (Inr (Some ((result entry)\<lparr>cached := True\<rparr>)), c, rq)"
    by (simp add: getVideoThumbnail_def)
next
  fix entry
  assume a: "map_of c u = Some entry \<and> now_read - timestamp entry \<ge> CACHE_TTL"
  show "map_of (AList.delete u c) u = None" by (rule map_of_delete_same)
  show "getVideoThumbnail E net now_read now_write u c rq =
        getVideoThumbnail E net now_read now_write u (AList.delete u c) rq"
    using a by (simp add: getVideoThumbnail_def map_of_delete_same AList.delete_idem)
  show "getVideoThumbnail E net now_read now_write u c rq =
        getVideoThumbnail_fetch E net now_write u (AList.delete u c) rq"
    using a by (simp add: getVideoThumbnail_def)
next
  fix r c1 rq1 net2 now_read2 now_write2
  assume a: "(map_of c u = None \<or>
       (\<exists>entry. map_of c u = Some entry \<and> now_read - timestamp entry \<ge> CACHE_TTL)) \<and>
      getVideoThumbnail E net now_read now_write u c rq = (Inr (Some r), c1, rq1) \<and>
      now_read2 - now_write < CACHE_TTL"
  then obtain c0 where f: "getVideoThumbnail_fetch E net now_write u c0 rq = (Inr (Some r), c1, rq1)"
    by (auto simp: getVideoThumbnail_def)
  note s = getVideoThumbnail_fetch_Some [OF f]
  show "cached r = False" using s by simp
  show "dispatch E net (platform r) u rq = (Inr (Some r), rq1)" using s by simp
  show "length rq < length rq1" using s by simp
  show "length rq1 \<le> length rq + 3" using s by simp
  show "length rq1 = length rq + 1" if "platform r \<noteq> youtube" using s that by simp
  show "rq1 = rq @ [youtube_probe v ''maxresdefault'']"
    if y: "platform r = youtube \<and> extractYouTubeId u = Some v \<and>
         probe_ok net rq (youtube_probe v ''maxresdefault'')" for v
  proof -
    have "fetchYouTubeThumbnail net u rq = (Inr (Some r), rq1)"
      using s y by (simp add: dispatch_def)
    then have "snd (fetchYouTubeThumbnail net u rq) = rq1" by simp
    then show ?thesis using fetchYouTubeThumbnail_first_ok [of u v net rq] y by simp
  qed
  have "map_of c1 u = Some \<lparr>result = r, timestamp = now_write\<rparr>"
    using s by (simp add: update_conv')
  then show "getVideoThumbnail E net2 now_read2 now_write2 u c1 rq1 =
          (Inr (Some (r\<lparr>cached := True\<rparr>)), c1, rq1)"
    using a by (simp add: getVideoThumbnail_def)
qed

text \<open>
  Amended C1 on a Vimeo URL: the first call fetches and stores, the second is served
  from the store although the transport is down, an entry one millisecond short of the
  TTL is served, an entry at the TTL is dropped. On a YouTube URL whose first probe
  succeeds: one request, then none.
\<close>

theorem getVideoThumbnail_cache_witness:
  "getVideoThumbnail demo_env (net_json demo_body) 0 1000 demo_url [] [] =
     (Inr (Some demo_result), demo_cache, [vimeo_request ''https%3A%2F%2Fvimeo.com%2F123456'']) \<and>
   cached demo_result = False \<and>
   getVideoThumbnail demo_env net_down 2000 3000 demo_url demo_cache
       [vimeo_request ''https%3A%2F%2Fvimeo.com%2F123456''] =
     (Inr (Some (demo_result\<lparr>cached := True\<rparr>)), demo_cache,
      [vimeo_request ''https%3A%2F%2Fvimeo.com%2F123456'']) \<and>
   getVideoThumbnail demo_env net_down 86399999 0 demo_url demo_cache [] =
     (Inr (Some (demo_result\<lparr>cached := True\<rparr>)), demo_cache, []) \<and>
   getVideoThumbnail demo_env net_down 86401000 0 demo_url demo_cache [] =
     getVideoThumbnail demo_env net_down 86401000 0 demo_url [] [] \<and>
   getVideoThumbnail demo_env (net_json demo_body) 0 1000
       ''https://www.youtube.com/watch?v=abc123'' [] [] =
     (Inr (Some \<lparr>url = JStr ''https://img.youtube.com/vi/abc123/maxresdefault.jpg'',
                 width = JNum (Finite 1280), height = JNum (Finite 720), platform = youtube,
                 cached = False\<rparr>),
      [(''https://www.youtube.com/watch?v=abc123'',
        \<lparr>result = \<lparr>url = JStr ''https://img.youtube.com/vi/abc123/maxresdefault.jpg'',
                    width = JNum (Finite 1280), height = JNum (Finite 720),
                    platform = youtube, cached = False\<rparr>,
         timestamp = 1000\<rparr>)],
      [youtube_probe ''abc123'' ''maxresdefault'']) \<and>
   getVideoThumbnail demo_env net_down 2000 3000 ''https://www.youtube.com/watch?v=abc123''
       [(''https://www.youtube.com/watch?v=abc123'',
         \<lparr>result = \<lparr>url = JStr ''https://img.youtube.com/vi/abc123/maxresdefault.jpg'',
                     width = JNum (Finite 1280), height = JNum (Finite 720),
                     platform = youtube, cached = False\<rparr>,
          timestamp = 1000\<rparr>)]
       [youtube_probe ''abc123'' ''maxresdefault''] =
     (Inr (Some \<lparr>url = JStr ''https://img.youtube.com/vi/abc123/maxresdefault.jpg'',
                 width = JNum (Finite 1280), height = JNum (Finite 720), platform = youtube,
                 cached = True\<rparr>),
      [(''https://www.youtube.com/watch?v=abc123'',
        \<lparr>result = \<lparr>url = JStr ''https://img.youtube.com/vi/abc123/maxresdefault.jpg'',
                    width = JNum (Finite 1280), height = JNum (Finite 720),
                    platform = youtube, cached = False\<rparr>,
         timestamp = 1000\<rparr>)],
      [youtube_probe ''abc123'' ''maxresdefault''])"
proof -
  let ?rq1 = "[vimeo_request ''https%3A%2F%2Fvimeo.com%2F123456'']"
  note thm1 = getVideoThumbnail_cache [where c = "[]" and u = demo_url and E = demo_env
      and net = "net_json demo_body" and now_read = 0 and now_write = 1000 and rq = "[]"]
  have third: "cached demo_result = False \<and>
      getVideoThumbnail demo_env net_down 2000 3000 demo_url demo_cache ?rq1 =
        (Inr (Some (demo_result\<lparr>cached := True\<rparr>)), demo_cache, ?rq1)"
    using thm1 [THEN conjunct2, THEN conjunct2, rule_format,
        of demo_result demo_cache ?rq1 2000 net_down 3000] demo_first_call
    by (simp add: CACHE_TTL_def)
  have m: "map_of demo_cache demo_url = Some \<lparr>result = demo_result, timestamp = 1000\<rparr>"
    by (simp add: demo_cache_def)
  have hit: "getVideoThumbnail demo_env net_down 86399999 0 demo_url demo_cache [] =
      (Inr (Some (demo_result\<lparr>cached := True\<rparr>)), demo_cache, [])"
    using getVideoThumbnail_cache [where c = demo_cache and u = demo_url and E = demo_env
      and net = net_down and now_read = 86399999 and now_write = 0 and rq = "[]",
      THEN conjunct1, rule_format, of "\<lparr>result = demo_result, timestamp = 1000\<rparr>"] m
    by (simp add: CACHE_TTL_def)
  have d: "AList.delete demo_url demo_cache = []"
    by (simp add: demo_cache_def)
  have expired: "getVideoThumbnail demo_env net_down 86401000 0 demo_url demo_cache [] =
      getVideoThumbnail demo_env net_down 86401000 0 demo_url [] []"
    using getVideoThumbnail_cache [where c = demo_cache and u = demo_url and E = demo_env
      and net = net_down and now_read = 86401000 and now_write = 0 and rq = "[]",
      THEN conjunct2, THEN conjunct1, rule_format, of "\<lparr>result = demo_result, timestamp = 1000\<rparr>"] m d
    by (simp add: CACHE_TTL_def)
  let ?yt = "''https://www.youtube.com/watch?v=abc123''"
  let ?ry = "\<lparr>url = JStr ''https://img.youtube.com/vi/abc123/maxresdefault.jpg'',
      width = JNum (Finite 1280), height = JNum (Finite 720), platform = youtube,
      cached = False\<rparr>"
  let ?cy = "[(?yt, \<lparr>result = ?ry, timestamp = 1000\<rparr>)]"
  let ?py = "[youtube_probe ''abc123'' ''maxresdefault'']"
  have yfirst: "getVideoThumbnail demo_env (net_json demo_body) 0 1000 ?yt [] [] =
      (Inr (Some ?ry), ?cy, ?py)"
    by (simp add: getVideoThumbnail_def getVideoThumbnail_fetch_def detectPlatform_def
        detectPlatform_body_def dispatch_def fetchYouTubeThumbnail_def extractYouTubeId_def
        youtube_patterns_def not_amp_q_slash_def thumbnails_def fetch_def net_json_def
        head_request_def youtube_probe_def youtube_result_def demo_defs)
  have yid: "extractYouTubeId ?yt = Some ''abc123''"
    by (simp add: extractYouTubeId_def youtube_patterns_def not_amp_q_slash_def)
  have yok: "probe_ok (net_json demo_body) [] (youtube_probe ''abc123'' ''maxresdefault'')"
    by (simp add: probe_ok_def net_json_def)
  note thm2 = getVideoThumbnail_cache [where c = "[]" and u = ?yt and E = demo_env
      and net = "net_json demo_body" and now_read = 0 and now_write = 1000 and rq = "[]",
      THEN conjunct2, THEN conjunct2, rule_format, of ?ry ?cy _ 2000 net_down 3000]
  have yone: "getVideoThumbnail demo_env (net_json demo_body) 0 1000 ?yt [] [] =
        (Inr (Some ?ry), ?cy, rq1) \<Longrightarrow> rq1 = ?py" for rq1
    using thm2 [of rq1] yid yok by (simp add: CACHE_TTL_def)
  have ysecond: "getVideoThumbnail demo_env net_down 2000 3000 ?yt ?cy ?py =
      (Inr (Some (?ry\<lparr>cached := True\<rparr>)), ?cy, ?py)"
    using thm2 [of ?py] yfirst by (simp add: CACHE_TTL_def)
  show ?thesis using demo_first_call third hit expired yfirst yone [OF yfirst] ysecond by simp
qed

subsection \<open>The invariant of the reachable states\<close>

lemma cache_ok_filter: "cache_ok E c \<Longrightarrow> cache_ok E (filter P c)"
  by (simp add: cache_ok_def distinct_map_filter list_all_iff)

lemma cache_ok_delete: "cache_ok E c \<Longrightarrow> cache_ok E (AList.delete k c)"
  unfolding AList.delete_eq by (rule cache_ok_filter)

lemma cache_ok_update:
  "cache_ok E c \<Longrightarrow> detectPlatform E k \<noteq> Inr None \<Longrightarrow> cache_ok E (AList.update k v c)"
  by (auto simp: cache_ok_def distinct_update update_keys list_all_iff)

lemma cache_ok_fetch:
  assumes "cache_ok E c" "getVideoThumbnail_fetch E net now_write u c rq = (r, c', rq')"
  shows "cache_ok E c'"
proof (cases "\<exists>x. r = Inr (Some x)")
  case True
  then obtain x where "r = Inr (Some x)" by blast
  with assms(2) have "c' = AList.update u \<lparr>result = x, timestamp = now_write\<rparr> c"
    "detectPlatform E u = Inr (Some (platform x))"
    using getVideoThumbnail_fetch_Some by blast+
  then show ?thesis using assms(1) by (simp add: cache_ok_update)
next
  case False
  with assms(2) have "c' = c"
    by (auto simp: getVideoThumbnail_fetch_def split: sum.splits option.splits prod.splits)
  then show ?thesis using assms(1) by simp
qed

lemma cache_ok_getVideoThumbnail:
  assumes "cache_ok E c" "getVideoThumbnail E net now_read now_write u c rq = (r, c', rq')"
  shows "cache_ok E c'"
proof (cases "map_of c u")
  case None
  then have "getVideoThumbnail_fetch E net now_write u c rq = (r, c', rq')"
    using assms(2) by (simp add: getVideoThumbnail_def)
  then show ?thesis using assms(1) by (rule cache_ok_fetch [rotated])
next
  case (Some entry)
  show ?thesis
  proof (cases "now_read - timestamp entry < CACHE_TTL")
    case True
    then have "c' = c" using assms(2) Some by (simp add: getVideoThumbnail_def)
    then show ?thesis using assms(1) by simp
  next
    case False
    then have "getVideoThumbnail_fetch E net now_write u (AList.delete u c) rq = (r, c', rq')"
      using assms(2) Some by (simp add: getVideoThumbnail_def)
    moreover have "cache_ok E (AList.delete u c)" using assms(1) by (rule cache_ok_delete)
    ultimately show ?thesis by (rule cache_ok_fetch [rotated])
  qed
qed

lemma cache_ok_prune:
  assumes "cache_ok E c" "pruneExpiredCache now c = (removed, c')"
  shows "cache_ok E c'"
proof -
  have "distinct (map fst c)" using assms(1) by (simp add: cache_ok_def)
  from pruneExpiredCache_eq [OF this, of now] assms(2)
  have "c' = filter (\<lambda>(k, e). \<not> now - timestamp e \<ge> CACHE_TTL) c" by simp
  then show ?thesis using assms(1) by (simp add: cache_ok_filter)
qed

lemma reachable_cache_ok: "reachable E c \<Longrightarrow> cache_ok E c"
proof (induction rule: reachable.induct)
  case initial
  then show ?case by (simp add: cache_ok_def)
next
  case (resolve c net now_read now_write videoUrl rq r c' rq')
  then show ?case by (blast intro: cache_ok_getVideoThumbnail)
next
  case (clear c)
  then show ?case by (simp add: cache_ok_def clearThumbnailCache_def)
next
  case (prune c now removed c')
  then show ?case by (blast intro: cache_ok_prune)
qed

lemma cache_ok_no_entry:
  assumes "cache_ok E c" "detectPlatform E u = Inr None"
  shows "map_of c u = None"
proof -
  have "u \<notin> set (map fst c)" using assms by (auto simp: cache_ok_def list_all_iff)
  then show ?thesis by (simp add: map_of_eq_None_iff)
qed

text \<open>
  Claim C6. When detection yields none for the URL (unrecognised or malformed),
  \<open>getVideoThumbnail\<close> issues no request and inserts nothing, in any store; and in every
  state the module can reach it returns none and leaves the store unchanged.
\<close>

theorem getVideoThumbnail_undetected:
  assumes "detectPlatform E u = Inr None"
  shows "(reachable E c \<longrightarrow>
            getVideoThumbnail E net now_read now_write u c rq = (Inr None, c, rq)) \<and>
         (\<exists>r c'. getVideoThumbnail E net now_read now_write u c rq = (r, c', rq) \<and>
            set c' \<subseteq> set c)"
proof
  show "reachable E c \<longrightarrow> getVideoThumbnail E net now_read now_write u c rq = (Inr None, c, rq)"
  proof
    assume "reachable E c"
    then have "map_of c u = None"
      using assms by (blast intro: cache_ok_no_entry reachable_cache_ok)
    then show "getVideoThumbnail E net now_read now_write u c rq = (Inr None, c, rq)"
      using assms by (simp add: getVideoThumbnail_def getVideoThumbnail_fetch_def)
  qed
  have "set (AList.delete u c) \<subseteq> set c" by (auto simp: AList.delete_eq)
  then show "\<exists>r c'. getVideoThumbnail E net now_read now_write u c rq = (r, c', rq) \<and> set c' \<subseteq> set c"
    using assms
    by (auto simp: getVideoThumbnail_def getVideoThumbnail_fetch_def split: option.splits)
qed

text \<open>C6 on \<open>https://example.com/video\<close> in a store that holds one entry.\<close>

theorem getVideoThumbnail_undetected_witness:
  "detectPlatform demo_env ''https://example.com/video'' = Inr None \<and>
   reachable demo_env demo_cache \<and>
   getVideoThumbnail demo_env (net_json demo_body) 2000 3000 ''https://example.com/video''
     demo_cache [] = (Inr None, demo_cache, [])"
proof -
  have n: "detectPlatform demo_env ''https://example.com/video'' = Inr None"
    by (simp add: detectPlatform_def detectPlatform_body_def demo_defs)
  show ?thesis
    using getVideoThumbnail_undetected [OF n, of demo_cache "net_json demo_body" 2000 3000 "[]"]
      n demo_cache_reachable
    by simp
qed

subsection \<open>Snapshots\<close>

lemma step_arrays:
  "a < length (arrays s) \<Longrightarrow>
     a < length (arrays (step s m)) \<and> arrays (step s m) ! a = arrays s ! a"
  by (cases m) (simp_all add: getCacheStats_def nth_append)

lemma foldl_step_arrays:
  "a < length (arrays s) \<Longrightarrow>
     a < length (arrays (foldl step s ms)) \<and> arrays (foldl step s ms) ! a = arrays s ! a"
proof (induction ms arbitrary: s)
  case Nil
  then show ?case by simp
next
  case (Cons m ms)
  from step_arrays [OF Cons.prems, of m]
  have 1: "a < length (arrays (step s m))" and 2: "arrays (step s m) ! a = arrays s ! a"
    by simp_all
  from Cons.IH [OF 1] 2 show ?case by simp
qed

text \<open>
  Claim C9. \<open>getCacheStats\<close> returns the number of entries and a new array that holds
  the keys in order, and does not change the \<open>Map\<close>. After any sequence of later calls
  (resolve, clear, prune, further \<open>getCacheStats\<close>) the array still holds the same keys,
  and the size that was returned is still its length.
\<close>

theorem getCacheStats_snapshot:
  assumes "getCacheStats s = ((n, a), s')"
  shows "n = length (thumbnailCache s) \<and>
         a < length (arrays s') \<and> arrays s' ! a = map fst (thumbnailCache s) \<and>
         thumbnailCache s' = thumbnailCache s \<and>
         (\<forall>ms. a < length (arrays (foldl step s' ms)) \<and>
               arrays (foldl step s' ms) ! a = map fst (thumbnailCache s) \<and>
               length (arrays (foldl step s' ms) ! a) = n)"
proof -
  have n: "n = length (thumbnailCache s)" and a: "a = length (arrays s)"
    and s': "s' = s\<lparr>arrays := arrays s @ [map fst (thumbnailCache s)]\<rparr>"
    using assms by (auto simp: getCacheStats_def)
  have lt: "a < length (arrays s')" using a s' by simp
  have here: "arrays s' ! a = map fst (thumbnailCache s)" using a s' by simp
  have later: "a < length (arrays (foldl step s' ms)) \<and>
      arrays (foldl step s' ms) ! a = map fst (thumbnailCache s)" for ms
    using foldl_step_arrays [OF lt, of ms] here by simp
  show ?thesis using n lt here s' later by simp
qed

text \<open>C9 on a store with one entry, followed by a prune, a second snapshot and a clear.\<close>

theorem getCacheStats_snapshot_witness:
  "getCacheStats \<lparr>thumbnailCache = demo_cache, arrays = []\<rparr> =
     ((1, 0), \<lparr>thumbnailCache = demo_cache, arrays = [[demo_url]]\<rparr>) \<and>
   step \<lparr>thumbnailCache = demo_cache, arrays = [[demo_url]]\<rparr> Clear =
     \<lparr>thumbnailCache = [], arrays = [[demo_url]]\<rparr> \<and>
   arrays (foldl step \<lparr>thumbnailCache = demo_cache, arrays = [[demo_url]]\<rparr>
             [Prune 86401000, Stats, Clear]) ! 0 = [demo_url]"
proof -
  have g: "getCacheStats \<lparr>thumbnailCache = demo_cache, arrays = []\<rparr> =
     ((1, 0), \<lparr>thumbnailCache = demo_cache, arrays = [[demo_url]]\<rparr>)"
    by (simp add: getCacheStats_def demo_cache_def)
  have c: "step \<lparr>thumbnailCache = demo_cache, arrays = [[demo_url]]\<rparr> Clear =
     \<lparr>thumbnailCache = [], arrays = [[demo_url]]\<rparr>"
    by (simp add: clearThumbnailCache_def)
  have k: "arrays (foldl step \<lparr>thumbnailCache = demo_cache, arrays = [[demo_url]]\<rparr>
             [Prune 86401000, Stats, Clear]) ! 0 =
           map fst (thumbnailCache \<lparr>thumbnailCache = demo_cache, arrays = []\<rparr>)"
    using getCacheStats_snapshot [OF g] by blast
  have m: "map fst (thumbnailCache \<lparr>thumbnailCache = demo_cache, arrays = []\<rparr>) = [demo_url]"
    by (simp add: demo_cache_def)
  from g c k [unfolded m] show ?thesis by (intro conjI)
qed

end
